theory Spec2Isabelle
  imports Complex_Main "HOL-Library.Sublist"
begin

section \<open>Values and strings\<close>

text \<open>
  The agent manager passes tool inputs and tool results around as untyped JavaScript values
  (\<^verbatim>\<open>Record<string, unknown>\<close>, \<^verbatim>\<open>unknown\<close>). They are modelled as a tree of JSON-like
  values; an object keeps its properties in insertion order.
\<close>

datatype jsvalue =
    JUndefined
  | JNull
  | JBool bool
  | JNum rat
  | JStr string
  | JArr "jsvalue list"
  | JObj "(string \<times> jsvalue) list"

text \<open>Property read \<^verbatim>\<open>input.key\<close>: a missing property reads as \<^verbatim>\<open>undefined\<close>.\<close>

definition getProp :: "(string \<times> jsvalue) list \<Rightarrow> string \<Rightarrow> jsvalue" where
  "getProp obj key = (case map_of obj key of None \<Rightarrow> JUndefined | Some v \<Rightarrow> v)"

definition newline :: string where
  "newline = [CHR 0x0A]"

text \<open>\<^verbatim>\<open>Array.prototype.join\<close> on an array of strings.\<close>

fun join :: "string \<Rightarrow> string list \<Rightarrow> string" where
  "join sep [] = []"
| "join sep [x] = x"
| "join sep (x # y # ys) = x @ sep @ join sep (y # ys)"

text \<open>\<^verbatim>\<open>String.prototype.includes\<close>: the needle occurs as a contiguous substring.\<close>

fun str_includes :: "string \<Rightarrow> string \<Rightarrow> bool" where
  "str_includes [] needle = (needle = [])"
| "str_includes (c # cs) needle = (prefix needle (c # cs) \<or> str_includes cs needle)"

section \<open>Transcript\<close>

datatype Role = User | Assistant

text \<open>
  Content blocks of the chat protocol. The loop only looks at \<^verbatim>\<open>text\<close> and \<^verbatim>\<open>tool_use\<close>
  blocks of a response and produces \<^verbatim>\<open>tool_result\<close> blocks; every other block type a
  response may carry is \<open>OtherBlock\<close>.
\<close>

datatype ContentBlock =
    TextBlock string
  | ToolUseBlock string string "(string \<times> jsvalue) list"
  | ToolResultBlock string string
  | OtherBlock string

text \<open>The content of a turn is a plain string or an array of blocks.\<close>

datatype Content = Plain string | Blocks "ContentBlock list"

record MessageParam =
  role :: Role
  content :: Content

fun isString :: "Content \<Rightarrow> bool" where
  "isString (Plain s) = True"
| "isString (Blocks bs) = False"

section \<open>Conversation normalizer\<close>

text \<open>
  One pass of the \<^verbatim>\<open>for (const msg of messages)\<close> loop of \<^verbatim>\<open>ensureAlternatingRoles\<close>:
  \<open>result\<close> is the output built so far. When the last output turn has the role of \<open>msg\<close>,
  two plain strings are joined with a newline into the last output turn; in every other
  same-role case the loop runs \<^verbatim>\<open>continue\<close> and \<open>msg\<close> is not pushed.
\<close>

definition mergeStep :: "MessageParam list \<Rightarrow> MessageParam \<Rightarrow> MessageParam list" where
  "mergeStep result msg =
     (if result \<noteq> [] \<and> role (last result) = role msg then
        (case (content (last result), content msg) of
           (Plain a, Plain b) \<Rightarrow>
             butlast result @ [(last result)\<lparr>content := Plain (a @ newline @ b)\<rparr>]
         | _ \<Rightarrow> result)
      else result @ [msg])"

definition conversationStart :: MessageParam where
  "conversationStart = \<lparr>role = User, content = Plain ''(conversation start)''\<rparr>"

definition ensureAlternatingRoles :: "MessageParam list \<Rightarrow> MessageParam list" where
  "ensureAlternatingRoles messages =
     (if messages = [] then []
      else
        let result = foldl mergeStep [] messages
        in if result \<noteq> [] \<and> role (hd result) \<noteq> User
           then conversationStart # result
           else result)"

text \<open>Adjacent turns always differ in role.\<close>

fun alternates :: "MessageParam list \<Rightarrow> bool" where
  "alternates [] = True"
| "alternates [m] = True"
| "alternates (m # n # ms) = (role m \<noteq> role n \<and> alternates (n # ms))"

text \<open>No two adjacent turns have the same role and both plain-text content.\<close>

fun noAdjacentPlainSameRole :: "MessageParam list \<Rightarrow> bool" where
  "noAdjacentPlainSameRole [] = True"
| "noAdjacentPlainSameRole [m] = True"
| "noAdjacentPlainSameRole (m # n # ms) =
     (\<not> (role m = role n \<and> isString (content m) \<and> isString (content n))
      \<and> noAdjacentPlainSameRole (n # ms))"

section \<open>Platforms and search results\<close>

datatype Platform = Amazon | Ebay | Walmart | AliExpress

fun platformName :: "Platform \<Rightarrow> string" where
  "platformName Amazon = ''amazon''"
| "platformName Ebay = ''ebay''"
| "platformName Walmart = ''walmart''"
| "platformName AliExpress = ''aliexpress''"

text \<open>
  A search result of a platform adapter. The declaration of \<^verbatim>\<open>ProductSearchResult\<close> is not
  among the sources; the fields are the ones \<open>storeResults\<close> reads.
\<close>

record ProductSearchResult =
  platform :: Platform
  platformId :: string
  title :: string
  upc :: "string option"
  asin :: "string option"
  brand :: "string option"
  category :: "string option"
  imageUrl :: "string option"
  price :: rat
  shipping :: rat
  currency :: string
  inStock :: bool
  seller :: "string option"
  url :: string

section \<open>Tool registry and tool selection\<close>

record ToolMetadata =
  platform :: "string option"
  category :: "string option"
  core :: bool

record ToolDefinition =
  name :: string
  description :: string
  input_schema :: jsvalue
  metadata :: "ToolMetadata option"

text \<open>
  Modelled from the spec: the class \<^verbatim>\<open>ToolRegistry\<close> of the module \<^verbatim>\<open>./tool-registry\<close> is
  not among the sources. The spec describes it as the set of tool descriptors keyed by name
  (names are unique), kept in registration order. A registry state is the list of its
  descriptors in registration order; \<open>registryInvariant\<close> is the uniqueness of the keys.
\<close>

type_synonym ToolRegistry = "ToolDefinition list"

definition registryInvariant :: "ToolRegistry \<Rightarrow> bool" where
  "registryInvariant registry = distinct (map name registry)"

text \<open>
  Modelled from the spec: \<^verbatim>\<open>getCoreTools\<close> is missing with the registry class; the spec has
  it return all entries flagged core, in registration order.
\<close>

definition isCore :: "ToolDefinition \<Rightarrow> bool" where
  "isCore tool = (case metadata tool of None \<Rightarrow> False | Some m \<Rightarrow> core m)"

definition getCoreTools :: "ToolRegistry \<Rightarrow> ToolDefinition list" where
  "getCoreTools registry = filter isCore registry"

text \<open>
  Modelled from the spec: \<^verbatim>\<open>searchByPlatform\<close> and \<^verbatim>\<open>searchByCategory\<close> are missing with the
  registry class; the spec has them filter the registry by an exact match of the platform
  or category tag, in registry order.
\<close>

definition searchByPlatform :: "ToolRegistry \<Rightarrow> string \<Rightarrow> ToolDefinition list" where
  "searchByPlatform registry p =
     filter (\<lambda>tool. case metadata tool of None \<Rightarrow> False | Some m \<Rightarrow> platform m = Some p) registry"

definition searchByCategory :: "ToolRegistry \<Rightarrow> string \<Rightarrow> ToolDefinition list" where
  "searchByCategory registry c =
     filter (\<lambda>tool. case metadata tool of None \<Rightarrow> False | Some m \<Rightarrow> category m = Some c) registry"

text \<open>
  The result of \<^verbatim>\<open>detectToolHints\<close>. The detector itself is not among the sources and is a
  parameter of \<open>selectTools\<close>.
\<close>

record ToolHints =
  platforms :: "string list"
  categories :: "string list"

text \<open>
  \<^verbatim>\<open>Map.prototype.set\<close> on an insertion-ordered map: an existing key keeps its position and
  gets the new value, a new key goes to the end.
\<close>

fun mapSet :: "'k \<Rightarrow> 'v \<Rightarrow> ('k \<times> 'v) list \<Rightarrow> ('k \<times> 'v) list" where
  "mapSet k v [] = [(k, v)]"
| "mapSet k v ((k', v') # m) = (if k = k' then (k, v) # m else (k', v') # mapSet k v m)"

definition MAX_TOOLS :: nat where
  "MAX_TOOLS = 50"

text \<open>
  The inner loops of \<open>selectTools\<close>:
  \<^verbatim>\<open>for (const tool of ...) { if (selected.size >= MAX_TOOLS) break; selected.set(tool.name, tool); }\<close>
\<close>

fun addTools ::
  "(string \<times> ToolDefinition) list \<Rightarrow> ToolDefinition list \<Rightarrow> (string \<times> ToolDefinition) list" where
  "addTools selected [] = selected"
| "addTools selected (tool # rest) =
     (if length selected \<ge> MAX_TOOLS then selected
      else addTools (mapSet (name tool) tool selected) rest)"

definition selectTools ::
  "(string \<Rightarrow> ToolHints) \<Rightarrow> ToolRegistry \<Rightarrow> string \<Rightarrow> ToolDefinition list" where
  "selectTools detectToolHints registry messageText =
     (let selected0 = foldl (\<lambda>selected tool. mapSet (name tool) tool selected) []
                        (getCoreTools registry);
          hints = detectToolHints messageText;
          selected1 = foldl (\<lambda>selected p. addTools selected (searchByPlatform registry p))
                        selected0 (platforms hints);
          selected2 = foldl (\<lambda>selected c. addTools selected (searchByCategory registry c))
                        selected1 (categories hints)
      in map snd selected2)"

definition toApiTools :: "ToolDefinition list \<Rightarrow> ToolDefinition list" where
  "toApiTools tools = map (\<lambda>tool. tool\<lparr>metadata := None\<rparr>) tools"

text \<open>
  The last entry of the list literal in \<open>defineTools\<close>, under the source's heading
  "Meta tool (core)".
\<close>

definition toolSearchDefinition :: ToolDefinition where
  "toolSearchDefinition =
     \<lparr>name = ''tool_search'',
      description = ''Search for available tools by name, platform, or category. Use this when you need a specialized tool that is not in your current set.'',
      input_schema = JObj
        [(''type'', JStr ''object''),
         (''properties'', JObj
            [(''query'', JObj [(''type'', JStr ''string''),
                              (''description'', JStr ''Search query describing what you need'')]),
             (''platform'', JObj [(''type'', JStr ''string''),
                                 (''description'', JStr ''Filter by platform''),
                                 (''enum'', JArr [JStr ''amazon'', JStr ''ebay'', JStr ''walmart'',
                                                 JStr ''aliexpress''])]),
             (''category'', JObj [(''type'', JStr ''string''),
                                 (''description'', JStr ''Filter by category''),
                                 (''enum'', JArr [JStr ''scanning'', JStr ''listing'',
                                                 JStr ''fulfillment'', JStr ''analytics'',
                                                 JStr ''pricing'', JStr ''admin''])])]),
         (''required'', JArr [JStr ''query''])],
      metadata = None\<rparr>"

text \<open>
  \<open>defineTools\<close>: the list literal followed by the loop that gives every tool its metadata,
  \<^verbatim>\<open>{ ...inferToolMetadata(name, description), core: CORE_TOOL_NAMES.has(name) }\<close>.
  The 87 entries before \<open>tool_search\<close> are the parameter \<open>platformTools\<close>;
  \<open>inferToolMetadata\<close> and \<open>CORE_TOOL_NAMES\<close> belong to the missing registry module and are
  parameters too.
\<close>

definition defineTools ::
  "(string \<Rightarrow> string \<Rightarrow> ToolMetadata) \<Rightarrow> string list \<Rightarrow> ToolDefinition list
     \<Rightarrow> ToolDefinition list" where
  "defineTools inferToolMetadata CORE_TOOL_NAMES platformTools =
     map (\<lambda>tool. tool\<lparr>metadata :=
            Some ((inferToolMetadata (name tool) (description tool))
                    \<lparr>core := name tool \<in> set CORE_TOOL_NAMES\<rparr>)\<rparr>)
         (platformTools @ [toolSearchDefinition])"

section \<open>Tool executor\<close>

text \<open>
  A thrown value, identified with the message that the catch clauses of the agent manager
  extract from it (\<^verbatim>\<open>err instanceof Error ? err.message : String(err)\<close>). A rejected promise
  of an \<^verbatim>\<open>async\<close> function is the left injection of a sum.
\<close>

type_synonym exn = string

text \<open>
  The calls \<open>storeResults\<close> makes on the database:
  \<open>UpsertProduct id title upc asin brand category imageUrl createdAt updatedAt\<close> and
  \<open>AddPrice productId platform platformId price shipping currency inStock seller url fetchedAt\<close>.
\<close>

datatype DbCall =
    UpsertProduct string string "string option" "string option" "string option"
      "string option" "string option" nat nat
  | AddPrice string Platform string rat rat string bool "string option" string nat

text \<open>
  The state outside the agent manager that tools read and write: the credential store behind
  \<^verbatim>\<open>CredentialsManager.getCredentials\<close>, the calls received by the database and by the
  platform adapters, the clock read by \<^verbatim>\<open>new Date()\<close>, and the session history.
\<close>

record World =
  credentialStore :: "string \<Rightarrow> Platform \<Rightarrow> jsvalue option"
  dbCalls :: "DbCall list"
  adapterCalls :: "(Platform \<times> jsvalue \<times> jsvalue) list"
  clock :: nat
  sessionHistory :: "(Role \<times> string) list"

record ToolContext =
  registry :: ToolRegistry
  userId :: string

record Message =
  response_content :: "ContentBlock list"
  stop_reason :: "string option"

record ModelRequest =
  model :: string
  max_tokens :: nat
  system :: string
  messages :: "MessageParam list"
  tools :: "ToolDefinition list"

record Session =
  sessionUserId :: string
  contextSummary :: "string option"

record IncomingMessage =
  messageId :: string
  chatPlatform :: string
  chatId :: string
  messageText :: string

text \<open>\<open>OutgoingMessage platform chatId text replyToMessageId\<close>\<close>

datatype OutgoingMessage = OutgoingMessage string string string string

text \<open>
  The collaborators of the agent manager, none of them among the sources, are parameters:
  the chat-completion call of iteration \<open>n\<close> (it returns the assembled response or throws),
  the platform adapters' \<^verbatim>\<open>search\<close>, the 84 cases of \<open>executeTool\<close> that are not modelled
  case by case, the session manager, the skill manager with the system prompt template,
  \<^verbatim>\<open>deps.sendMessage\<close>, the configured model name, and the library functions
  \<^verbatim>\<open>JSON.stringify\<close> and \<^verbatim>\<open>String.prototype.trim\<close>.
\<close>

record Env =
  callModel :: "nat \<Rightarrow> ModelRequest \<Rightarrow> exn + Message"
  adapterSearch :: "Platform \<Rightarrow> jsvalue \<Rightarrow> jsvalue \<Rightarrow> World \<Rightarrow> exn + ProductSearchResult list"
  otherTool :: "string \<Rightarrow> (string \<times> jsvalue) list \<Rightarrow> ToolContext \<Rightarrow> World
                  \<Rightarrow> (exn + jsvalue) \<times> World"
  addToHistory :: "Session \<Rightarrow> Role \<Rightarrow> string \<Rightarrow> World \<Rightarrow> World"
  getHistory :: "Session \<Rightarrow> World \<Rightarrow> (Role \<times> string) list"
  systemPromptFor :: "string \<Rightarrow> string"
  detectToolHints :: "string \<Rightarrow> ToolHints"
  sendMessage :: "OutgoingMessage \<Rightarrow> string option"
  modelName :: string
  JSON_stringify :: "jsvalue \<Rightarrow> string"
  trim :: "string \<Rightarrow> string"

record UserCreds =
  amazon :: "jsvalue option"
  ebay :: "jsvalue option"
  walmart :: "jsvalue option"
  aliexpress :: "jsvalue option"
  keepa :: "jsvalue option"
  easypost :: "jsvalue option"

definition getUserCreds :: "World \<Rightarrow> string \<Rightarrow> UserCreds" where
  "getUserCreds w uid =
     \<lparr>amazon = credentialStore w uid Amazon,
      ebay = credentialStore w uid Ebay,
      walmart = credentialStore w uid Walmart,
      aliexpress = credentialStore w uid AliExpress,
      keepa = credentialStore w uid Amazon,
      easypost = credentialStore w uid Ebay\<rparr>"

text \<open>JavaScript truthiness, for the tests \<^verbatim>\<open>!creds.amazon\<close>.\<close>

fun truthy :: "jsvalue \<Rightarrow> bool" where
  "truthy JUndefined = False"
| "truthy JNull = False"
| "truthy (JBool b) = b"
| "truthy (JNum n) = (n \<noteq> 0)"
| "truthy (JStr s) = (s \<noteq> [])"
| "truthy (JArr xs) = True"
| "truthy (JObj kvs) = True"

definition notConfigured :: "jsvalue option \<Rightarrow> bool" where
  "notConfigured c = (case c of None \<Rightarrow> True | Some v \<Rightarrow> \<not> truthy v)"

fun optionalProp :: "string \<Rightarrow> string option \<Rightarrow> (string \<times> jsvalue) list" where
  "optionalProp key None = []"
| "optionalProp key (Some s) = [(key, JStr s)]"

text \<open>A search result as the value that goes into a tool's payload.\<close>

definition productValue :: "ProductSearchResult \<Rightarrow> jsvalue" where
  "productValue r =
     JObj ([(''platform'', JStr (platformName (ProductSearchResult.platform r))),
            (''platformId'', JStr (platformId r)),
            (''title'', JStr (title r))]
           @ optionalProp ''upc'' (upc r) @ optionalProp ''asin'' (asin r)
           @ optionalProp ''brand'' (brand r)
           @ optionalProp ''category'' (ProductSearchResult.category r)
           @ optionalProp ''imageUrl'' (imageUrl r)
           @ [(''price'', JNum (price r)), (''shipping'', JNum (shipping r)),
              (''currency'', JStr (currency r)), (''inStock'', JBool (inStock r))]
           @ optionalProp ''seller'' (seller r)
           @ [(''url'', JStr (url r))])"

definition storeResults :: "ProductSearchResult list \<Rightarrow> World \<Rightarrow> World" where
  "storeResults results w =
     (let now = clock w
      in w\<lparr>dbCalls := dbCalls w @ concat (map (\<lambda>r.
            let productId = platformName (ProductSearchResult.platform r) @ '':'' @ platformId r
            in [UpsertProduct productId (title r) (upc r) (asin r) (brand r)
                  (ProductSearchResult.category r) (imageUrl r) now now,
                AddPrice productId (ProductSearchResult.platform r) (platformId r) (price r)
                  (shipping r) (currency r) (inStock r) (seller r) (url r) now]) results)\<rparr>)"

text \<open>
  The body shared by the four scanner cases once credentials are present: create the
  adapter, \<^verbatim>\<open>await adapter.search({...})\<close> (which may throw, and nothing in \<open>executeTool\<close>
  catches it), store the results, return the payload.
\<close>

definition scan ::
  "Env \<Rightarrow> Platform \<Rightarrow> jsvalue \<Rightarrow> (string \<times> jsvalue) list \<Rightarrow> World \<Rightarrow> (exn + jsvalue) \<times> World" where
  "scan env p creds input w =
     (let options = JObj
            [(''query'', getProp input ''query''),
             (''category'', getProp input ''category''),
             (''maxResults'', (case getProp input ''maxResults'' of
                                 JNum n \<Rightarrow> JNum n | _ \<Rightarrow> JNum 10))];
          w1 = w\<lparr>adapterCalls := adapterCalls w @ [(p, creds, options)]\<rparr>
      in case adapterSearch env p creds options w of
           Inl err \<Rightarrow> (Inl err, w1)
         | Inr results \<Rightarrow>
             (Inr (JObj [(''status'', JStr ''ok''),
                         (''results'', JArr (map productValue results)),
                         (''count'', JNum (of_nat (length results)))]),
              storeResults results w1))"

definition credentialsError :: "string \<Rightarrow> jsvalue" where
  "credentialsError msg = JObj [(''status'', JStr ''error''), (''message'', JStr msg)]"

text \<open>
  The case labels of the \<^verbatim>\<open>switch (toolName)\<close> in \<open>executeTool\<close> other than the four
  scanners, in source order. Their bodies are the parameter \<open>otherTool\<close>.
\<close>

definition otherToolNames :: "string list" where
  "otherToolNames =
    [''tool_search'', ''setup_amazon_credentials'', ''setup_ebay_credentials'',
     ''setup_walmart_credentials'', ''setup_aliexpress_credentials'',
     ''list_credentials'', ''delete_credentials'', ''compare_prices'',
     ''find_arbitrage'', ''match_products'', ''get_product_details'', ''check_stock'',
     ''get_price_history'', ''create_ebay_listing'', ''create_amazon_listing'',
     ''update_listing_price'', ''optimize_listing'', ''bulk_list'', ''pause_listing'',
     ''resume_listing'', ''delete_listing'', ''check_orders'', ''auto_purchase'',
     ''track_shipment'', ''update_tracking'', ''handle_return'', ''calculate_profit'',
     ''daily_report'', ''profit_dashboard'', ''top_opportunities'',
     ''category_analysis'', ''competitor_watch'', ''fee_calculator'',
     ''get_shipping_cost'', ''get_hot_products'', ''get_aliexpress_categories'',
     ''get_product_variations'', ''browse_amazon_categories'', ''ebay_get_policies'',
     ''ebay_create_policy'', ''ebay_category_suggest'', ''ebay_item_aspects'',
     ''ebay_get_inventory'', ''ebay_bulk_update'', ''ebay_issue_refund'',
     ''walmart_upc_lookup'', ''walmart_trending'', ''walmart_taxonomy'',
     ''get_ds_order_status'', ''amazon_sp_search_catalog'', ''amazon_sp_get_pricing'',
     ''amazon_sp_estimate_fees'', ''amazon_sp_create_listing'', ''amazon_sp_get_orders'',
     ''amazon_sp_get_fba_inventory'', ''ebay_get_transactions'', ''ebay_get_payouts'',
     ''ebay_funds_summary'', ''ebay_traffic_report'', ''ebay_seller_metrics'',
     ''ebay_create_campaign'', ''ebay_get_campaigns'', ''ebay_promote_listings'',
     ''keepa_price_history'', ''keepa_deals'', ''keepa_bestsellers'',
     ''keepa_track_product'', ''get_shipping_rates'', ''buy_shipping_label'',
     ''track_package'', ''verify_address'', ''setup_amazon_sp_credentials'',
     ''setup_keepa_credentials'', ''setup_easypost_credentials'',
     ''setup_walmart_seller_credentials'', ''walmart_get_seller_items'',
     ''walmart_update_price'', ''walmart_update_inventory'', ''walmart_get_inventory'',
     ''walmart_get_orders'', ''walmart_ship_order'', ''walmart_retire_item'',
     ''batch_reprice'', ''inventory_sync'']"

definition scannerToolNames :: "string list" where
  "scannerToolNames = [''scan_amazon'', ''scan_ebay'', ''scan_walmart'', ''scan_aliexpress'']"

text \<open>
  \<open>executeTool\<close>: the result is the value the promise resolves to (\<open>Inr\<close>) or the value it
  rejects with (\<open>Inl\<close>), and the world after the call. A name that matches no case label
  takes the \<^verbatim>\<open>default\<close> branch (the warning it logs is not modelled).
\<close>

definition executeTool ::
  "Env \<Rightarrow> string \<Rightarrow> (string \<times> jsvalue) list \<Rightarrow> ToolContext \<Rightarrow> World \<Rightarrow> (exn + jsvalue) \<times> World" where
  "executeTool env toolName input context w =
     (let creds = getUserCreds w (userId context)
      in if toolName = ''scan_amazon'' then
           (if notConfigured (amazon creds)
            then (Inr (credentialsError
                   ''Amazon credentials not configured. Use setup_amazon_credentials first.''), w)
            else scan env Amazon (the (amazon creds)) input w)
         else if toolName = ''scan_ebay'' then
           (if notConfigured (ebay creds)
            then (Inr (credentialsError
                   ''eBay credentials not configured. Use setup_ebay_credentials first.''), w)
            else scan env Ebay (the (ebay creds)) input w)
         else if toolName = ''scan_walmart'' then
           (if notConfigured (walmart creds)
            then (Inr (credentialsError
                   ''Walmart credentials not configured. Use setup_walmart_credentials first.''), w)
            else scan env Walmart (the (walmart creds)) input w)
         else if toolName = ''scan_aliexpress'' then
           (if notConfigured (aliexpress creds)
            then (Inr (credentialsError
                   ''AliExpress credentials not configured. Use setup_aliexpress_credentials first.''), w)
            else scan env AliExpress (the (aliexpress creds)) input w)
         else if toolName \<in> set otherToolNames then otherTool env toolName input context w
         else (Inr (JObj [(''error'', JStr (''Unknown tool: '' @ toolName))]), w))"

section \<open>Agentic loop\<close>

text \<open>An entry of \<open>toolUseBlocks\<close>: \<open>ToolCall id name input\<close>.\<close>

datatype ToolCall = ToolCall (toolCallId: string) (toolCallName: string)
  (toolCallInput: "(string \<times> jsvalue) list")

text \<open>The two arrays collected from \<^verbatim>\<open>response.content\<close>; other block types are skipped.\<close>

fun textBlocksOf :: "ContentBlock list \<Rightarrow> string list" where
  "textBlocksOf [] = []"
| "textBlocksOf (TextBlock t # bs) = t # textBlocksOf bs"
| "textBlocksOf (b # bs) = textBlocksOf bs"

fun toolUseBlocksOf :: "ContentBlock list \<Rightarrow> ToolCall list" where
  "toolUseBlocksOf [] = []"
| "toolUseBlocksOf (ToolUseBlock i n inp # bs) = ToolCall i n inp # toolUseBlocksOf bs"
| "toolUseBlocksOf (b # bs) = toolUseBlocksOf bs"

text \<open>The \<^verbatim>\<open>tool_use_id\<close> of a \<^verbatim>\<open>tool_result\<close> block.\<close>

fun tool_use_id :: "ContentBlock \<Rightarrow> string option" where
  "tool_use_id (ToolResultBlock i c) = Some i"
| "tool_use_id b = None"

text \<open>
  The \<^verbatim>\<open>try { result = await executeTool(...) } catch\<close> of the loop: an exception of the
  executor becomes an error payload.
\<close>

definition callTool :: "Env \<Rightarrow> ToolContext \<Rightarrow> ToolCall \<Rightarrow> World \<Rightarrow> jsvalue \<times> World" where
  "callTool env context toolCall w =
     (case executeTool env (toolCallName toolCall) (toolCallInput toolCall) context w of
        (Inr result, w') \<Rightarrow> (result, w')
      | (Inl errMsg, w') \<Rightarrow>
          (JObj [(''error'', JStr (''Tool execution failed: '' @ errMsg))], w'))"

text \<open>
  The body of \<^verbatim>\<open>for (const toolCall of toolUseBlocks)\<close>: run the tool and push its
  \<^verbatim>\<open>tool_result\<close> block, a string result as it is and any other through \<^verbatim>\<open>JSON.stringify\<close>.
\<close>

definition toolResultFor :: "Env \<Rightarrow> ToolContext \<Rightarrow> ToolCall \<Rightarrow> World \<Rightarrow> ContentBlock \<times> World" where
  "toolResultFor env context toolCall w =
     (case callTool env context toolCall w of
        (result, w') \<Rightarrow>
          (ToolResultBlock (toolCallId toolCall)
             (case result of JStr str \<Rightarrow> str | _ \<Rightarrow> JSON_stringify env result), w'))"

fun executeToolCalls ::
  "Env \<Rightarrow> ToolContext \<Rightarrow> ToolCall list \<Rightarrow> ContentBlock list \<Rightarrow> World
     \<Rightarrow> ContentBlock list \<times> World" where
  "executeToolCalls env context [] toolResults w = (toolResults, w)"
| "executeToolCalls env context (toolCall # rest) toolResults w =
     (case toolResultFor env context toolCall w of
        (block, w') \<Rightarrow> executeToolCalls env context rest (toolResults @ [block]) w')"

definition MAX_ITERATIONS :: nat where
  "MAX_ITERATIONS = 10"

definition promptTooLongText :: string where
  "promptTooLongText =
     ''I apologize, but the conversation has grown too long. Please start a new conversation with /new.''"

definition genericErrorText :: string where
  "genericErrorText =
     ''Sorry, I encountered an error processing your request. Please try again.''"

definition maxIterationsNotice :: string where
  "maxIterationsNotice = newline @ newline @ ''(Reached maximum tool call iterations.)''"

text \<open>The variables of \<open>handleMessage\<close> that the loop assigns, and the tools' world.\<close>

record LoopState =
  currentMessages :: "MessageParam list"
  iterations :: nat
  finalText :: string
  world :: World

text \<open>What the loop reads and never assigns.\<close>

record LoopContext =
  systemPrompt :: string
  selectedTools :: "ToolDefinition list"
  toolContext :: ToolContext

datatype Step = Break LoopState | Continue LoopState

definition requestOf :: "Env \<Rightarrow> LoopContext \<Rightarrow> LoopState \<Rightarrow> ModelRequest" where
  "requestOf env cx s =
     \<lparr>model = modelName env, max_tokens = 4096, system = systemPrompt cx,
      messages = currentMessages s, tools = toApiTools (selectedTools cx)\<rparr>"

text \<open>
  One pass through the body of \<^verbatim>\<open>while (iterations < MAX_ITERATIONS)\<close>, from
  \<^verbatim>\<open>iterations++\<close> to the end of the body: \<open>Break\<close> where the source runs \<^verbatim>\<open>break\<close>,
  \<open>Continue\<close> where it falls through to the loop test.
\<close>

definition loopIteration :: "Env \<Rightarrow> LoopContext \<Rightarrow> LoopState \<Rightarrow> Step" where
  "loopIteration env cx s =
     (let n = Suc (iterations s)
      in case callModel env n (requestOf env cx s) of
           Inl errMsg \<Rightarrow>
             (if str_includes errMsg ''prompt is too long'' \<or> str_includes errMsg ''max_tokens''
              then Break (s\<lparr>iterations := n, finalText := promptTooLongText\<rparr>)
              else Break (s\<lparr>iterations := n, finalText := genericErrorText\<rparr>))
         | Inr response \<Rightarrow>
             (let textBlocks = textBlocksOf (response_content response);
                  toolUseBlocks = toolUseBlocksOf (response_content response)
              in if toolUseBlocks = []
                 then Break (s\<lparr>iterations := n, finalText := join newline textBlocks\<rparr>)
                 else
                   (case executeToolCalls env (toolContext cx) toolUseBlocks [] (world s) of
                      (toolResults, w') \<Rightarrow>
                        (let s' = s\<lparr>currentMessages := currentMessages s @
                                       [\<lparr>role = Assistant, content = Blocks (response_content response)\<rparr>,
                                        \<lparr>role = User, content = Blocks toolResults\<rparr>],
                                     iterations := n, world := w'\<rparr>
                         in if stop_reason response = Some ''end_turn'' \<and> textBlocks \<noteq> []
                            then Break (s'\<lparr>finalText := join newline textBlocks\<rparr>)
                            else Continue s'))))"

function agentLoop :: "Env \<Rightarrow> LoopContext \<Rightarrow> LoopState \<Rightarrow> LoopState" where
  "agentLoop env cx s =
     (if iterations s < MAX_ITERATIONS
      then (case loopIteration env cx s of
              Break s' \<Rightarrow> s'
            | Continue s' \<Rightarrow> agentLoop env cx s')
      else s)"
  by pat_completeness auto
termination
  by (relation "measure (\<lambda>(env, cx, s). MAX_ITERATIONS - iterations s)")
     (auto simp: loopIteration_def Let_def split: sum.splits if_splits prod.splits)

declare agentLoop.simps [simp del]

text \<open>
  The statement after the loop:
  \<^verbatim>\<open>if (iterations >= MAX_ITERATIONS) finalText += '\n\n(Reached maximum tool call iterations.)'\<close>.
\<close>

definition finishText :: "LoopState \<Rightarrow> string" where
  "finishText s =
     (if iterations s \<ge> MAX_ITERATIONS then finalText s @ maxIterationsNotice else finalText s)"

definition initialState :: "MessageParam list \<Rightarrow> World \<Rightarrow> LoopState" where
  "initialState cleanedMessages w =
     \<lparr>currentMessages = cleanedMessages, iterations = 0, finalText = [], world = w\<rparr>"

definition summaryTurns :: "Session \<Rightarrow> MessageParam list" where
  "summaryTurns session =
     (case contextSummary session of
        None \<Rightarrow> []
      | Some summary \<Rightarrow>
          if summary = [] then []
          else [\<lparr>role = User,
                 content = Plain (''[Previous conversation summary: '' @ summary @ '']'')\<rparr>,
                \<lparr>role = Assistant,
                 content = Plain ''I understand the context from our previous conversation. How can I help?''\<rparr>])"

text \<open>
  The part of \<open>handleMessage\<close> from reading the history to the end of the loop, for the
  trimmed text \<open>txt\<close> and the world \<open>w1\<close> in which the user's message is already in the
  history: build the transcript, normalize it, select the tools, run the loop.
\<close>

definition runLoop :: "Env \<Rightarrow> ToolRegistry \<Rightarrow> Session \<Rightarrow> string \<Rightarrow> World \<Rightarrow> LoopState" where
  "runLoop env reg session txt w1 =
     (let history = getHistory env session w1;
          apiMessages = summaryTurns session
                          @ map (\<lambda>(r, c). \<lparr>role = r, content = Plain c\<rparr>) history;
          cleanedMessages = ensureAlternatingRoles apiMessages;
          cx = \<lparr>systemPrompt = systemPromptFor env txt,
                selectedTools = selectTools (detectToolHints env) reg txt,
                toolContext = \<lparr>registry = reg, userId = sessionUserId session\<rparr>\<rparr>
      in agentLoop env cx (initialState cleanedMessages w1))"

text \<open>
  \<open>handleMessage\<close>: the reply (\<open>None\<close> for \<^verbatim>\<open>null\<close>) and the world after the call. Logging is
  not modelled.
\<close>

definition handleMessage ::
  "Env \<Rightarrow> ToolRegistry \<Rightarrow> IncomingMessage \<Rightarrow> Session \<Rightarrow> World \<Rightarrow> string option \<times> World" where
  "handleMessage env reg message session w =
     (let txt = trim env (messageText message)
      in if txt = [] then (None, w)
         else
           (let w1 = addToHistory env session User txt w;
                s = runLoop env reg session txt w1;
                final = finishText s
            in if final \<noteq> []
               then (sendMessage env
                       (OutgoingMessage (chatPlatform message) (chatId message) final
                          (messageId message)),
                     addToHistory env session Assistant final (world s))
               else (None, world s)))"

text \<open>The state a pass through the loop body ends in, whether it breaks or not.\<close>

fun stateOf :: "Step \<Rightarrow> LoopState" where
  "stateOf (Break s) = s"
| "stateOf (Continue s) = s"

text \<open>
  Every response of the model, at each of the ten possible iterations and whatever the
  request, carries at least one tool-use block and does not combine the stop reason
  \<^verbatim>\<open>end_turn\<close> with a text block (the combination on which the loop breaks after running
  the tools).
\<close>

definition keepsRequestingTools :: "Env \<Rightarrow> bool" where
  "keepsRequestingTools env =
     (\<forall>n req. 1 \<le> n \<and> n \<le> MAX_ITERATIONS \<longrightarrow>
        (\<exists>response. callModel env n req = Inr response
           \<and> toolUseBlocksOf (response_content response) \<noteq> []
           \<and> \<not> (stop_reason response = Some ''end_turn''
                  \<and> textBlocksOf (response_content response) \<noteq> [])))"

section \<open>Invariant of the selected map and sample inputs\<close>

text \<open>
  Every entry of the map \<open>selected\<close> is a descriptor of the registry, stored under its own
  name.
\<close>

definition keyed :: "ToolRegistry \<Rightarrow> (string \<times> ToolDefinition) list \<Rightarrow> bool" where
  "keyed reg selected = (\<forall>(k, v) \<in> set selected. v \<in> set reg \<and> k = name v)"

text \<open>A hint detector that finds nothing, and one that finds the platform ebay.\<close>

definition noHints :: "string \<Rightarrow> ToolHints" where
  "noHints txt = \<lparr>platforms = [], categories = []\<rparr>"

definition ebayHints :: "string \<Rightarrow> ToolHints" where
  "ebayHints txt = \<lparr>platforms = [''ebay''], categories = []\<rparr>"

text \<open>A registry of 51 descriptors, all of them core, named t, tt, ttt, ...\<close>

definition coreTool :: "nat \<Rightarrow> ToolDefinition" where
  "coreTool n =
     \<lparr>name = replicate (Suc n) (CHR ''t''), description = [], input_schema = JObj [],
      metadata = Some \<lparr>platform = None, category = None, core = True\<rparr>\<rparr>"

definition manyCoreTools :: ToolRegistry where
  "manyCoreTools = map coreTool [0..<51]"

text \<open>The second entry of the list literal in \<open>defineTools\<close>.\<close>

definition scanEbayDefinition :: ToolDefinition where
  "scanEbayDefinition =
     \<lparr>name = ''scan_ebay'',
      description = ''Search eBay for products by keyword. Returns listings with prices, seller ratings, and shipping info.'',
      input_schema = JObj
        [(''type'', JStr ''object''),
         (''properties'', JObj
            [(''query'', JObj [(''type'', JStr ''string''),
                              (''description'', JStr ''Search query'')]),
             (''category'', JObj [(''type'', JStr ''string''),
                                 (''description'', JStr ''eBay category to narrow results'')]),
             (''maxResults'', JObj [(''type'', JStr ''number''),
                                   (''description'', JStr ''Maximum number of results (default: 10)''),
                                   (''default'', JNum 10)])]),
         (''required'', JArr [JStr ''query''])],
      metadata = None\<rparr>"

text \<open>
  A two-tool registry built by \<open>defineTools\<close>: \<open>scan_ebay\<close> tagged with the platform
  ebay, and the core tool \<open>tool_search\<close>.
\<close>

definition sampleInfer :: "string \<Rightarrow> string \<Rightarrow> ToolMetadata" where
  "sampleInfer toolName toolDescription =
     \<lparr>platform = (if toolName = ''scan_ebay'' then Some ''ebay'' else None),
      category = None, core = False\<rparr>"

definition sampleRegistry :: ToolRegistry where
  "sampleRegistry = defineTools sampleInfer [''tool_search''] [scanEbayDefinition]"

text \<open>Sample worlds, collaborators and model responses.\<close>

definition emptyWorld :: World where
  "emptyWorld =
     \<lparr>credentialStore = (\<lambda>uid p. None), dbCalls = [], adapterCalls = [], clock = 0,
      sessionHistory = []\<rparr>"

definition configuredWorld :: World where
  "configuredWorld =
     emptyWorld\<lparr>credentialStore := (\<lambda>uid p. Some (JObj [(''accessKeyId'', JStr ''AKIA'')]))\<rparr>"

definition sampleContext :: ToolContext where
  "sampleContext = \<lparr>registry = sampleRegistry, userId = ''u1''\<rparr>"

definition baseEnv :: Env where
  "baseEnv =
     \<lparr>callModel = (\<lambda>n req. Inl ''overloaded''),
      adapterSearch = (\<lambda>p creds options w. Inl ''ECONNRESET''),
      otherTool = (\<lambda>toolName input context w. (Inr (JObj [(''status'', JStr ''ok'')]), w)),
      addToHistory = (\<lambda>session r txt w. w\<lparr>sessionHistory := sessionHistory w @ [(r, txt)]\<rparr>),
      getHistory = (\<lambda>session w. sessionHistory w),
      systemPromptFor = (\<lambda>txt. ''You are FlipAgent''),
      detectToolHints = noHints,
      sendMessage = (\<lambda>msg. case msg of OutgoingMessage p c txt r \<Rightarrow> Some txt),
      modelName = ''claude-sonnet-4-5-20250929'',
      JSON_stringify = (\<lambda>v. ''{}''),
      trim = (\<lambda>txt. txt)\<rparr>"

definition toolUseResponse :: Message where
  "toolUseResponse =
     \<lparr>response_content =
        [TextBlock ''Let me look that up.'',
         ToolUseBlock ''toolu_1'' ''fee_calculator''
           [(''platform'', JStr ''ebay''), (''price'', JNum 50)]],
      stop_reason = Some ''tool_use''\<rparr>"

definition endTurnResponse :: Message where
  "endTurnResponse = toolUseResponse\<lparr>stop_reason := Some ''end_turn''\<rparr>"

definition textResponse :: Message where
  "textResponse =
     \<lparr>response_content = [TextBlock ''The eBay fee is $6.63.''], stop_reason = Some ''end_turn''\<rparr>"

definition toolLoopEnv :: Env where
  "toolLoopEnv = baseEnv\<lparr>callModel := (\<lambda>n req. Inr toolUseResponse)\<rparr>"

definition endTurnEnv :: Env where
  "endTurnEnv = baseEnv\<lparr>callModel := (\<lambda>n req. Inr endTurnResponse)\<rparr>"

definition tenthTextEnv :: Env where
  "tenthTextEnv =
     baseEnv\<lparr>callModel := (\<lambda>n req. if n < 10 then Inr toolUseResponse else Inr textResponse)\<rparr>"

definition tenthFailEnv :: Env where
  "tenthFailEnv =
     baseEnv\<lparr>callModel := (\<lambda>n req. if n < 10 then Inr toolUseResponse
                                   else Inl ''prompt is too long: 212000 tokens > 200000 maximum'')\<rparr>"

definition inputTooLongEnv :: Env where
  "inputTooLongEnv =
     baseEnv\<lparr>callModel := (\<lambda>n req. Inl ''input is too long for the requested model'')\<rparr>"

definition sampleLoopContext :: LoopContext where
  "sampleLoopContext =
     \<lparr>systemPrompt = ''You are FlipAgent'', selectedTools = getCoreTools sampleRegistry,
      toolContext = sampleContext\<rparr>"

definition sampleTurns :: "MessageParam list" where
  "sampleTurns = [\<lparr>role = User, content = Plain ''what are the ebay fees on $50?''\<rparr>]"

definition sampleMessage :: IncomingMessage where
  "sampleMessage =
     \<lparr>messageId = ''m1'', chatPlatform = ''telegram'', chatId = ''c1'',
      messageText = ''what are the ebay fees on $50?''\<rparr>"

definition sampleSession :: Session where
  "sampleSession = \<lparr>sessionUserId = ''u1'', contextSummary = None\<rparr>"

section \<open>Properties of the normalizer\<close>

lemma alternates_snoc:
  "alternates (ms @ [m]) = (alternates ms \<and> (ms \<noteq> [] \<longrightarrow> role (last ms) \<noteq> role m))"
  by (induction ms rule: alternates.induct) auto

lemma alternates_butlast: "alternates ms \<Longrightarrow> alternates (butlast ms)"
  by (induction ms rule: alternates.induct) auto

lemma alternates_replace_last:
  assumes "alternates ms" and "ms \<noteq> []" and "role m = role (last ms)"
  shows "alternates (butlast ms @ [m])"
proof -
  from assms(2) have split: "ms = butlast ms @ [last ms]" by simp
  have "alternates (butlast ms @ [last ms])" using assms(1) split by simp
  then show ?thesis using assms(3) by (simp add: alternates_snoc)
qed

lemma mergeStep_alternates:
  assumes "alternates result"
  shows "alternates (mergeStep result msg)"
proof (cases "result \<noteq> [] \<and> role (last result) = role msg")
  case True
  show ?thesis
  proof (cases "\<exists>a b. content (last result) = Plain a \<and> content msg = Plain b")
    case True
    then obtain a b where ab: "content (last result) = Plain a" "content msg = Plain b"
      by blast
    have "alternates (butlast result @ [(last result)\<lparr>content := Plain (a @ newline @ b)\<rparr>])"
      using assms \<open>result \<noteq> [] \<and> role (last result) = role msg\<close>
      by (intro alternates_replace_last) simp_all
    then show ?thesis
      using ab \<open>result \<noteq> [] \<and> role (last result) = role msg\<close>
      by (simp add: mergeStep_def)
  next
    case False
    then have "mergeStep result msg = result"
      using \<open>result \<noteq> [] \<and> role (last result) = role msg\<close>
      by (auto simp: mergeStep_def split: Content.splits)
    then show ?thesis using assms by simp
  qed
next
  case False
  then show ?thesis using assms by (auto simp: mergeStep_def alternates_snoc)
qed

lemma mergeStep_nonempty: "mergeStep result msg \<noteq> []"
  by (auto simp: mergeStep_def split: Content.splits)

lemma foldl_mergeStep_alternates:
  "alternates result \<Longrightarrow> alternates (foldl mergeStep result msgs)"
  by (induction msgs arbitrary: result) (simp_all add: mergeStep_alternates)

lemma foldl_mergeStep_nonempty:
  "result \<noteq> [] \<or> msgs \<noteq> [] \<Longrightarrow> foldl mergeStep result msgs \<noteq> []"
  by (induction msgs arbitrary: result) (auto simp: mergeStep_nonempty)

lemma alternates_Cons:
  "alternates (m # ms) = (alternates ms \<and> (ms \<noteq> [] \<longrightarrow> role m \<noteq> role (hd ms)))"
  by (cases ms) auto

lemma alternates_noAdjacent: "alternates ms \<Longrightarrow> noAdjacentPlainSameRole ms"
  by (induction ms rule: alternates.induct) auto

lemma ensureAlternatingRoles_alternates: "alternates (ensureAlternatingRoles msgs)"
  by (auto simp: ensureAlternatingRoles_def Let_def alternates_Cons conversationStart_def
                 foldl_mergeStep_alternates
           intro: Role.exhaust)

text \<open>
  C4. For every input list of turns, the output of \<open>ensureAlternatingRoles\<close> is non-empty
  whenever the input is non-empty, its first turn has role user, and it contains no two
  consecutive turns of identical role whose contents are both plain text.
\<close>

theorem ensureAlternatingRoles_shape:
  "(msgs \<noteq> [] \<longrightarrow>
      ensureAlternatingRoles msgs \<noteq> []
      \<and> role (hd (ensureAlternatingRoles msgs)) = User)
   \<and> noAdjacentPlainSameRole (ensureAlternatingRoles msgs)"
proof -
  have shape: "ensureAlternatingRoles msgs \<noteq> []
      \<and> role (hd (ensureAlternatingRoles msgs)) = User" if "msgs \<noteq> []"
  proof -
    have ne: "foldl mergeStep [] msgs \<noteq> []"
      using that foldl_mergeStep_nonempty by blast
    show ?thesis
      using that ne by (simp add: ensureAlternatingRoles_def Let_def conversationStart_def)
  qed
  have "noAdjacentPlainSameRole (ensureAlternatingRoles msgs)"
    by (rule alternates_noAdjacent) (rule ensureAlternatingRoles_alternates)
  with shape show ?thesis by blast
qed

theorem ensureAlternatingRoles_shape_witness:
  "[\<lparr>role = Assistant, content = Plain ''a''\<rparr>, \<lparr>role = Assistant, content = Plain ''b''\<rparr>,
    \<lparr>role = User, content = Plain ''c''\<rparr>] \<noteq> []
   \<and> ensureAlternatingRoles
        [\<lparr>role = Assistant, content = Plain ''a''\<rparr>, \<lparr>role = Assistant, content = Plain ''b''\<rparr>,
         \<lparr>role = User, content = Plain ''c''\<rparr>]
       = [conversationStart, \<lparr>role = Assistant, content = Plain (''a'' @ newline @ ''b'')\<rparr>,
          \<lparr>role = User, content = Plain ''c''\<rparr>]
   \<and> role (hd (ensureAlternatingRoles
        [\<lparr>role = Assistant, content = Plain ''a''\<rparr>, \<lparr>role = Assistant, content = Plain ''b''\<rparr>,
         \<lparr>role = User, content = Plain ''c''\<rparr>])) = User
   \<and> noAdjacentPlainSameRole (ensureAlternatingRoles
        [\<lparr>role = Assistant, content = Plain ''a''\<rparr>, \<lparr>role = Assistant, content = Plain ''b''\<rparr>,
         \<lparr>role = User, content = Plain ''c''\<rparr>])"
  using ensureAlternatingRoles_shape
    [of "[\<lparr>role = Assistant, content = Plain ''a''\<rparr>, \<lparr>role = Assistant, content = Plain ''b''\<rparr>,
          \<lparr>role = User, content = Plain ''c''\<rparr>]"]
  by (simp add: ensureAlternatingRoles_def mergeStep_def conversationStart_def)


text \<open>
  C5 (as stated, refuted). The claim has the normalizer append a same-role turn as it is
  when one of the two turns carries structured blocks. Here a user turn of tool results is
  followed by a plain-text user turn, and the second turn is absent from the output.
\<close>

theorem ensureAlternatingRoles_structured_counterexample:
  "ensureAlternatingRoles
     [\<lparr>role = User, content = Blocks [ToolResultBlock ''toolu_1'' ''ok'']\<rparr>,
      \<lparr>role = User, content = Plain ''hello''\<rparr>]
   = [\<lparr>role = User, content = Blocks [ToolResultBlock ''toolu_1'' ''ok'']\<rparr>]"
  by (simp add: ensureAlternatingRoles_def mergeStep_def)

text \<open>
  C5 (amended). When the current turn has the role of the previous output turn and either
  of the two has structured-block content, the normalizer neither merges nor appends: the
  output built so far stays as it is, and the current turn is dropped.
\<close>

theorem mergeStep_structured_drops:
  assumes "result \<noteq> []" and "role (last result) = role msg"
    and "\<not> isString (content (last result)) \<or> \<not> isString (content msg)"
  shows "mergeStep result msg = result"
proof (cases "content (last result)")
  case (Plain a)
  then obtain bs where "content msg = Blocks bs"
    using assms(3) by (cases "content msg") auto
  then show ?thesis using assms(1,2) Plain by (simp add: mergeStep_def)
next
  case (Blocks bs)
  then show ?thesis using assms(1,2) by (simp add: mergeStep_def split: Content.splits)
qed

theorem mergeStep_structured_drops_witness:
  "[\<lparr>role = Assistant, content = Blocks [ToolUseBlock ''toolu_1'' ''scan_amazon'' []]\<rparr>] \<noteq> []
   \<and> role (last [\<lparr>role = Assistant, content = Blocks [ToolUseBlock ''toolu_1'' ''scan_amazon'' []]\<rparr>])
       = role \<lparr>role = Assistant, content = Plain ''done''\<rparr>
   \<and> \<not> isString (content (last
         [\<lparr>role = Assistant, content = Blocks [ToolUseBlock ''toolu_1'' ''scan_amazon'' []]\<rparr>]))
   \<and> mergeStep [\<lparr>role = Assistant, content = Blocks [ToolUseBlock ''toolu_1'' ''scan_amazon'' []]\<rparr>]
        \<lparr>role = Assistant, content = Plain ''done''\<rparr>
       = [\<lparr>role = Assistant, content = Blocks [ToolUseBlock ''toolu_1'' ''scan_amazon'' []]\<rparr>]"
  using mergeStep_structured_drops
    [of "[\<lparr>role = Assistant, content = Blocks [ToolUseBlock ''toolu_1'' ''scan_amazon'' []]\<rparr>]"
        "\<lparr>role = Assistant, content = Plain ''done''\<rparr>"]
  by simp

section \<open>Properties of the tool selector\<close>

lemma mapSet_length_le: "length (mapSet k v m) \<le> Suc (length m)"
  by (induction m) auto

lemma mapSet_length_ge: "length m \<le> length (mapSet k v m)"
  by (induction m) auto

lemma addTools_length:
  "length (addTools selected ts) \<le> max MAX_TOOLS (length selected)"
proof (induction ts arbitrary: selected)
  case Nil
  then show ?case by simp
next
  case (Cons t ts)
  show ?case
  proof (cases "length selected \<ge> MAX_TOOLS")
    case True
    then show ?thesis by simp
  next
    case False
    have "length (addTools (mapSet (name t) t selected) ts)
            \<le> max MAX_TOOLS (length (mapSet (name t) t selected))"
      by (rule Cons.IH)
    also have "\<dots> \<le> max MAX_TOOLS (length selected)"
      using False mapSet_length_le [of "name t" t selected] by simp
    finally show ?thesis using False by simp
  qed
qed

lemma foldl_addTools_length:
  "length (foldl (\<lambda>selected x. addTools selected (f x)) selected xs)
     \<le> max MAX_TOOLS (length selected)"
proof (induction xs arbitrary: selected)
  case Nil
  then show ?case by simp
next
  case (Cons x xs)
  have "length (foldl (\<lambda>selected x. addTools selected (f x)) (addTools selected (f x)) xs)
          \<le> max MAX_TOOLS (length (addTools selected (f x)))"
    by (rule Cons.IH)
  also have "\<dots> \<le> max MAX_TOOLS (length selected)"
    using addTools_length [of selected "f x"] by simp
  finally show ?case by simp
qed

lemma foldl_mapSet_length:
  "length (foldl (\<lambda>selected tool. mapSet (name tool) tool selected) selected ts)
     \<le> length selected + length ts"
proof (induction ts arbitrary: selected)
  case Nil
  then show ?case by simp
next
  case (Cons t ts)
  have "length (foldl (\<lambda>selected tool. mapSet (name tool) tool selected)
                  (mapSet (name t) t selected) ts)
          \<le> length (mapSet (name t) t selected) + length ts"
    by (rule Cons.IH)
  then show ?case using mapSet_length_le [of "name t" t selected] by simp
qed

lemma selectTools_length:
  "length (selectTools detect reg txt) \<le> max MAX_TOOLS (length (getCoreTools reg))"
proof -
  let ?s0 = "foldl (\<lambda>selected tool. mapSet (name tool) tool selected) [] (getCoreTools reg)"
  let ?s1 = "foldl (\<lambda>selected p. addTools selected (searchByPlatform reg p)) ?s0
               (platforms (detect txt))"
  let ?s2 = "foldl (\<lambda>selected c. addTools selected (searchByCategory reg c)) ?s1
               (categories (detect txt))"
  have l0: "length ?s0 \<le> length (getCoreTools reg)"
    using foldl_mapSet_length [of "[]" "getCoreTools reg"] by simp
  have l1: "length ?s1 \<le> max MAX_TOOLS (length ?s0)"
    by (rule foldl_addTools_length)
  have l2: "length ?s2 \<le> max MAX_TOOLS (length ?s1)"
    by (rule foldl_addTools_length)
  have "length ?s2 \<le> max MAX_TOOLS (length (getCoreTools reg))"
    using l0 l1 l2 by simp
  then show ?thesis by (simp add: selectTools_def Let_def)
qed

lemma mapSet_keyed:
  assumes "registryInvariant reg" "keyed reg selected" "t \<in> set reg"
  shows "keyed reg (mapSet (name t) t selected)
         \<and> set (map snd (mapSet (name t) t selected)) = insert t (set (map snd selected))"
  using assms(2)
proof (induction selected)
  case Nil
  then show ?case using assms(3) by (simp add: keyed_def)
next
  case (Cons kv selected)
  obtain k v where kv: "kv = (k, v)" by (cases kv)
  have inj: "inj_on name (set reg)"
    using assms(1) by (simp add: registryInvariant_def distinct_map)
  from Cons.prems kv have v: "v \<in> set reg" "k = name v" and rest: "keyed reg selected"
    by (auto simp: keyed_def)
  show ?case
  proof (cases "name t = k")
    case True
    then have "t = v" using inj v assms(3) by (auto dest: inj_onD)
    then show ?thesis using True kv Cons.prems by (auto simp: keyed_def)
  next
    case False
    then show ?thesis using kv Cons.IH [OF rest] v by (auto simp: keyed_def)
  qed
qed

lemma foldl_mapSet_keyed:
  assumes "registryInvariant reg" "keyed reg selected" "set ts \<subseteq> set reg"
  shows "keyed reg (foldl (\<lambda>selected tool. mapSet (name tool) tool selected) selected ts)
         \<and> set (map snd (foldl (\<lambda>selected tool. mapSet (name tool) tool selected) selected ts))
             = set (map snd selected) \<union> set ts"
  using assms(2,3)
proof (induction ts arbitrary: selected)
  case Nil
  then show ?case by simp
next
  case (Cons t ts)
  have t: "t \<in> set reg" and ts: "set ts \<subseteq> set reg" using Cons.prems(2) by auto
  note step = mapSet_keyed [OF assms(1) Cons.prems(1) t]
  from Cons.IH [OF conjunct1 [OF step] ts] step show ?case by auto
qed

lemma addTools_keyed:
  assumes "registryInvariant reg" "keyed reg selected" "set ts \<subseteq> set reg"
  shows "keyed reg (addTools selected ts)
         \<and> set (map snd selected) \<subseteq> set (map snd (addTools selected ts))"
  using assms(2,3)
proof (induction ts arbitrary: selected)
  case Nil
  then show ?case by simp
next
  case (Cons t ts)
  have t: "t \<in> set reg" and ts: "set ts \<subseteq> set reg" using Cons.prems(2) by auto
  show ?case
  proof (cases "length selected \<ge> MAX_TOOLS")
    case True
    then show ?thesis using Cons.prems(1) by simp
  next
    case False
    note step = mapSet_keyed [OF assms(1) Cons.prems(1) t]
    note ih = Cons.IH [OF conjunct1 [OF step] ts]
    have "set (map snd selected) \<subseteq> set (map snd (mapSet (name t) t selected))"
      using conjunct2 [OF step] by blast
    then have "set (map snd selected)
                 \<subseteq> set (map snd (addTools (mapSet (name t) t selected) ts))"
      using conjunct2 [OF ih] by (rule subset_trans)
    with conjunct1 [OF ih] False show ?thesis by simp
  qed
qed

lemma foldl_addTools_keyed:
  assumes "registryInvariant reg" "keyed reg selected" "\<And>x. set (f x) \<subseteq> set reg"
  shows "keyed reg (foldl (\<lambda>selected x. addTools selected (f x)) selected xs)
         \<and> set (map snd selected)
             \<subseteq> set (map snd (foldl (\<lambda>selected x. addTools selected (f x)) selected xs))"
  using assms(2)
proof (induction xs arbitrary: selected)
  case Nil
  then show ?case by simp
next
  case (Cons x xs)
  note step = addTools_keyed [OF assms(1) Cons.prems assms(3) [of x]]
  note ih = Cons.IH [OF conjunct1 [OF step]]
  have "set (map snd selected)
          \<subseteq> set (map snd (foldl (\<lambda>selected x. addTools selected (f x))
                              (addTools selected (f x)) xs))"
    using conjunct2 [OF step] conjunct2 [OF ih] by (rule subset_trans)
  with conjunct1 [OF ih] show ?case by simp
qed

lemma selectTools_core:
  assumes "registryInvariant reg"
  shows "set (getCoreTools reg) \<subseteq> set (selectTools detect reg txt)"
proof -
  let ?s0 = "foldl (\<lambda>selected tool. mapSet (name tool) tool selected) [] (getCoreTools reg)"
  let ?s1 = "foldl (\<lambda>selected p. addTools selected (searchByPlatform reg p)) ?s0
               (platforms (detect txt))"
  let ?s2 = "foldl (\<lambda>selected c. addTools selected (searchByCategory reg c)) ?s1
               (categories (detect txt))"
  have k0: "keyed reg []" by (simp add: keyed_def)
  have sub: "set (getCoreTools reg) \<subseteq> set reg" by (auto simp: getCoreTools_def)
  note s0 = foldl_mapSet_keyed [OF assms k0 sub]
  have s1: "keyed reg ?s1 \<and> set (map snd ?s0) \<subseteq> set (map snd ?s1)"
    by (rule foldl_addTools_keyed [OF assms conjunct1 [OF s0]])
       (auto simp: searchByPlatform_def)
  have s2: "keyed reg ?s2 \<and> set (map snd ?s1) \<subseteq> set (map snd ?s2)"
    by (rule foldl_addTools_keyed [OF assms conjunct1 [OF s1]])
       (auto simp: searchByCategory_def)
  have "set (getCoreTools reg) \<subseteq> set (map snd ?s0)"
    using conjunct2 [OF s0] by simp
  also have "\<dots> \<subseteq> set (map snd ?s1)" using s1 by (rule conjunct2)
  also have "\<dots> \<subseteq> set (map snd ?s2)" using s2 by (rule conjunct2)
  finally have "set (getCoreTools reg) \<subseteq> set (map snd ?s2)" .
  then show ?thesis by (simp add: selectTools_def Let_def)
qed


lemma mapSet_fresh: "k \<notin> fst ` set m \<Longrightarrow> mapSet k v m = m @ [(k, v)]"
  by (induction m) auto

lemma foldl_mapSet_fresh:
  "distinct (map name ts) \<Longrightarrow> name ` set ts \<inter> fst ` set selected = {} \<Longrightarrow>
   foldl (\<lambda>selected tool. mapSet (name tool) tool selected) selected ts
     = selected @ map (\<lambda>tool. (name tool, tool)) ts"
proof (induction ts arbitrary: selected)
  case Nil
  then show ?case by simp
next
  case (Cons t ts)
  have fresh: "name t \<notin> fst ` set selected" using Cons.prems(2) by auto
  have step: "mapSet (name t) t selected = selected @ [(name t, t)]"
    using fresh by (rule mapSet_fresh)
  have d: "distinct (map name ts)" using Cons.prems(1) by simp
  have disj: "name ` set ts \<inter> fst ` set (selected @ [(name t, t)]) = {}"
    using Cons.prems by auto
  show ?case using Cons.IH [OF d disj] step by simp
qed

lemma getCoreTools_distinct:
  "registryInvariant reg \<Longrightarrow> distinct (map name (getCoreTools reg))"
  by (simp add: registryInvariant_def getCoreTools_def distinct_map_filter)

lemma selectTools_no_hints:
  assumes "registryInvariant reg" "platforms (detect txt) = []" "categories (detect txt) = []"
  shows "selectTools detect reg txt = getCoreTools reg"
proof -
  have "foldl (\<lambda>selected tool. mapSet (name tool) tool selected) [] (getCoreTools reg)
          = [] @ map (\<lambda>tool. (name tool, tool)) (getCoreTools reg)"
    by (rule foldl_mapSet_fresh) (simp_all add: getCoreTools_distinct [OF assms(1)])
  then show ?thesis
    using assms(2,3) by (simp add: selectTools_def Let_def comp_def)
qed

lemma toolSearch_in_defineTools:
  assumes "''tool_search'' \<in> set coreNames"
  shows "\<exists>t \<in> set (getCoreTools (defineTools infer coreNames platformTools)).
           name t = ''tool_search''"
proof -
  let ?t = "toolSearchDefinition\<lparr>metadata :=
              Some ((infer (name toolSearchDefinition) (description toolSearchDefinition))
                      \<lparr>core := name toolSearchDefinition \<in> set coreNames\<rparr>)\<rparr>"
  have "?t \<in> set (defineTools infer coreNames platformTools)"
    by (simp add: defineTools_def)
  moreover have "isCore ?t" using assms by (simp add: isCore_def toolSearchDefinition_def)
  moreover have "name ?t = ''tool_search''" by (simp add: toolSearchDefinition_def)
  ultimately show ?thesis by (auto simp: getCoreTools_def)
qed


lemma manyCoreTools_invariant: "registryInvariant manyCoreTools"
proof -
  have "inj_on (\<lambda>n. replicate (Suc n) (CHR ''t'')) (set [0..<51])"
    by (rule inj_onI) (metis length_replicate nat.inject)
  then show ?thesis
    by (simp add: registryInvariant_def manyCoreTools_def coreTool_def comp_def distinct_map)
qed

lemma manyCoreTools_core: "getCoreTools manyCoreTools = manyCoreTools"
  by (simp add: getCoreTools_def manyCoreTools_def isCore_def coreTool_def)

lemma sampleRegistry_invariant: "registryInvariant sampleRegistry"
  by (simp add: registryInvariant_def sampleRegistry_def defineTools_def
                scanEbayDefinition_def toolSearchDefinition_def)

text \<open>
  C6 (as stated, refuted). With 51 core tools in the registry the selector returns all 51:
  core tools are added without a look at the cap, so the result is longer than 50.
\<close>

theorem selectTools_cap_counterexample:
  "registryInvariant manyCoreTools
   \<and> length (selectTools noHints manyCoreTools ''hello'') = 51"
proof -
  have "selectTools noHints manyCoreTools ''hello'' = getCoreTools manyCoreTools"
    by (rule selectTools_no_hints) (simp_all add: manyCoreTools_invariant noHints_def)
  then show ?thesis
    by (simp add: manyCoreTools_core manyCoreTools_invariant) (simp add: manyCoreTools_def)
qed

text \<open>
  C6 (amended). For every registry state and every message text the selector's result
  contains every core tool, and its length never exceeds the larger of the cap of 50 and
  the number of core tools; so it stays within 50 whenever the registry holds at most 50
  core tools.
\<close>

theorem selectTools_core_and_cap:
  assumes "registryInvariant reg"
  shows "set (getCoreTools reg) \<subseteq> set (selectTools detect reg txt)
         \<and> length (selectTools detect reg txt) \<le> max MAX_TOOLS (length (getCoreTools reg))
         \<and> (length (getCoreTools reg) \<le> 50 \<longrightarrow> length (selectTools detect reg txt) \<le> 50)"
proof -
  have len: "length (selectTools detect reg txt) \<le> max MAX_TOOLS (length (getCoreTools reg))"
    by (rule selectTools_length)
  then have small: "length (getCoreTools reg) \<le> 50 \<longrightarrow> length (selectTools detect reg txt) \<le> 50"
    by (auto simp: MAX_TOOLS_def)
  have incl: "set (getCoreTools reg) \<subseteq> set (selectTools detect reg txt)"
    using assms by (rule selectTools_core)
  from incl len small show ?thesis by blast
qed

theorem selectTools_core_and_cap_witness:
  "registryInvariant sampleRegistry
   \<and> set (getCoreTools sampleRegistry) \<subseteq> set (selectTools ebayHints sampleRegistry ''scan ebay'')
   \<and> length (selectTools ebayHints sampleRegistry ''scan ebay'')
       \<le> max MAX_TOOLS (length (getCoreTools sampleRegistry))
   \<and> length (getCoreTools sampleRegistry) \<le> 50
   \<and> length (selectTools ebayHints sampleRegistry ''scan ebay'') \<le> 50"
proof -
  have small: "length (getCoreTools sampleRegistry) \<le> 50"
    by (simp add: getCoreTools_def sampleRegistry_def defineTools_def)
  show ?thesis
    using selectTools_core_and_cap [OF sampleRegistry_invariant, of ebayHints "''scan ebay''"]
      small sampleRegistry_invariant
    by blast
qed

text \<open>
  C9. For every message text on which hint detection yields no platform and no category
  hints, the selector returns exactly the core tools in registration order; for the registry
  that \<open>defineTools\<close> builds, with the meta tool \<open>tool_search\<close> among the core names, that
  list is not empty.
\<close>

theorem selectTools_no_hints_core:
  assumes "registryInvariant reg"
    and "platforms (detect txt) = []" and "categories (detect txt) = []"
  shows "selectTools detect reg txt = getCoreTools reg
         \<and> (reg = defineTools infer coreNames platformTools \<and> ''tool_search'' \<in> set coreNames
              \<longrightarrow> selectTools detect reg txt \<noteq> [])"
proof -
  have eq: "selectTools detect reg txt = getCoreTools reg"
    using assms by (rule selectTools_no_hints)
  have ne: "getCoreTools (defineTools infer coreNames platformTools) \<noteq> []"
    if "''tool_search'' \<in> set coreNames"
    using toolSearch_in_defineTools [OF that, of infer platformTools] by auto
  show ?thesis using eq ne by auto
qed


theorem selectTools_no_hints_core_witness:
  "registryInvariant sampleRegistry
   \<and> platforms (noHints ''hello'') = [] \<and> categories (noHints ''hello'') = []
   \<and> selectTools noHints sampleRegistry ''hello'' = getCoreTools sampleRegistry
   \<and> sampleRegistry = defineTools sampleInfer [''tool_search''] [scanEbayDefinition]
   \<and> ''tool_search'' \<in> set [''tool_search'']
   \<and> selectTools noHints sampleRegistry ''hello'' \<noteq> []"
proof -
  have p: "platforms (noHints ''hello'') = []" and c: "categories (noHints ''hello'') = []"
    by (simp_all add: noHints_def)
  have r: "sampleRegistry = defineTools sampleInfer [''tool_search''] [scanEbayDefinition]"
    by (simp add: sampleRegistry_def)
  have t: "''tool_search'' \<in> set [''tool_search'']" by simp
  show ?thesis
    using selectTools_no_hints_core
      [of sampleRegistry noHints "''hello''" sampleInfer "[''tool_search'']"
          "[scanEbayDefinition]"]
      sampleRegistry_invariant p c r t
    by blast
qed

section \<open>Properties of the tool executor\<close>

text \<open>
  C8. For every user with no Amazon credentials stored, \<open>executeTool\<close> on \<open>scan_amazon\<close>
  returns the payload with status \<open>error\<close> and the message "Amazon credentials not
  configured. Use setup_amazon_credentials first."; it does not raise, and it leaves the
  world as it was, so the Amazon adapter has received no call.
\<close>

theorem scan_amazon_not_configured:
  assumes "credentialStore w (userId context) Amazon = None"
  shows "executeTool env ''scan_amazon'' input context w
         = (Inr (JObj [(''status'', JStr ''error''),
                       (''message'', JStr ''Amazon credentials not configured. Use setup_amazon_credentials first.'')]),
            w)
         \<and> adapterCalls (snd (executeTool env ''scan_amazon'' input context w)) = adapterCalls w"
  using assms
  by (simp add: executeTool_def getUserCreds_def notConfigured_def credentialsError_def)

theorem scan_amazon_not_configured_witness:
  "credentialStore emptyWorld (userId sampleContext) Amazon = None
   \<and> executeTool baseEnv ''scan_amazon'' [(''query'', JStr ''yoga mat'')] sampleContext emptyWorld
       = (Inr (JObj [(''status'', JStr ''error''),
                     (''message'', JStr ''Amazon credentials not configured. Use setup_amazon_credentials first.'')]),
          emptyWorld)
   \<and> adapterCalls (snd (executeTool baseEnv ''scan_amazon'' [(''query'', JStr ''yoga mat'')]
                          sampleContext emptyWorld)) = adapterCalls emptyWorld"
proof -
  have h: "credentialStore emptyWorld (userId sampleContext) Amazon = None"
    by (simp add: emptyWorld_def)
  show ?thesis
    using scan_amazon_not_configured
      [OF h, of baseEnv "[(''query'', JStr ''yoga mat'')]"] h
    by blast
qed

text \<open>
  C2 (as stated, refuted). The user has Amazon credentials and the adapter's search fails
  with a connection error: nothing inside \<open>executeTool\<close> catches it, and the promise of
  \<open>executeTool\<close> rejects.
\<close>

theorem executeTool_raises_counterexample:
  "fst (executeTool baseEnv ''scan_amazon'' [(''query'', JStr ''yoga mat'')] sampleContext
          configuredWorld) = Inl ''ECONNRESET''"
  by (simp add: executeTool_def getUserCreds_def notConfigured_def configuredWorld_def
                emptyWorld_def scan_def baseEnv_def Let_def)

text \<open>
  C2 (amended). For a tool name that matches no case of the executor, \<open>executeTool\<close> returns
  the payload \<open>{error: "Unknown tool: <name>"}\<close> without raising and without touching the
  world. For the other names it can raise, and the \<^verbatim>\<open>try/catch\<close> around the call in the
  loop turns the exception into the payload \<open>{error: "Tool execution failed: <message>"}\<close>,
  while a returned payload passes through unchanged: every tool call of the loop yields a
  result payload.
\<close>

theorem executeTool_boundary:
  "(toolName \<notin> set scannerToolNames \<union> set otherToolNames \<longrightarrow>
      executeTool env toolName input context w
        = (Inr (JObj [(''error'', JStr (''Unknown tool: '' @ toolName))]), w))
   \<and> (\<forall>errMsg w'. executeTool env toolName input context w = (Inl errMsg, w') \<longrightarrow>
         callTool env context (ToolCall i toolName input) w
           = (JObj [(''error'', JStr (''Tool execution failed: '' @ errMsg))], w'))
   \<and> (\<forall>result w'. executeTool env toolName input context w = (Inr result, w') \<longrightarrow>
         callTool env context (ToolCall i toolName input) w = (result, w'))"
  by (simp add: callTool_def) (simp add: executeTool_def scannerToolNames_def Let_def)

theorem executeTool_boundary_witness:
  "''no_such_tool'' \<notin> set scannerToolNames \<union> set otherToolNames
   \<and> executeTool baseEnv ''no_such_tool'' [] sampleContext emptyWorld
       = (Inr (JObj [(''error'', JStr ''Unknown tool: no_such_tool'')]), emptyWorld)
   \<and> callTool baseEnv sampleContext (ToolCall ''toolu_1'' ''no_such_tool'' []) emptyWorld
       = (JObj [(''error'', JStr ''Unknown tool: no_such_tool'')], emptyWorld)
   \<and> fst (callTool baseEnv sampleContext
             (ToolCall ''toolu_2'' ''scan_amazon'' [(''query'', JStr ''yoga mat'')]) configuredWorld)
       = JObj [(''error'', JStr ''Tool execution failed: ECONNRESET'')]"
proof -
  have unknown: "''no_such_tool'' \<notin> set scannerToolNames \<union> set otherToolNames"
    by (simp add: scannerToolNames_def otherToolNames_def)
  note a = executeTool_boundary [of "''no_such_tool''" baseEnv "[]" sampleContext emptyWorld "''toolu_1''"]
  note b = executeTool_boundary [of "''scan_amazon''" baseEnv "[(''query'', JStr ''yoga mat'')]"
              sampleContext configuredWorld "''toolu_2''"]
  have r: "executeTool baseEnv ''no_such_tool'' [] sampleContext emptyWorld
       = (Inr (JObj [(''error'', JStr ''Unknown tool: no_such_tool'')]), emptyWorld)"
    using a unknown by simp
  have c: "callTool baseEnv sampleContext (ToolCall ''toolu_1'' ''no_such_tool'' []) emptyWorld
       = (JObj [(''error'', JStr ''Unknown tool: no_such_tool'')], emptyWorld)"
    using a r by simp
  obtain w' where raised: "executeTool baseEnv ''scan_amazon'' [(''query'', JStr ''yoga mat'')]
       sampleContext configuredWorld = (Inl ''ECONNRESET'', w')"
    by (simp add: executeTool_def getUserCreds_def notConfigured_def configuredWorld_def
                emptyWorld_def scan_def baseEnv_def Let_def)
  have d: "fst (callTool baseEnv sampleContext
             (ToolCall ''toolu_2'' ''scan_amazon'' [(''query'', JStr ''yoga mat'')]) configuredWorld)
       = JObj [(''error'', JStr ''Tool execution failed: ECONNRESET'')]"
    using b raised by simp
  show ?thesis using unknown r c d by blast
qed


section \<open>Properties of the agentic loop\<close>

lemma agentLoop_stop: "\<not> iterations s < MAX_ITERATIONS \<Longrightarrow> agentLoop env cx s = s"
  by (simp add: agentLoop.simps)

lemma agentLoop_break:
  "iterations s < MAX_ITERATIONS \<Longrightarrow> loopIteration env cx s = Break s' \<Longrightarrow>
   agentLoop env cx s = s'"
  by (simp add: agentLoop.simps)

lemma agentLoop_continue:
  "iterations s < MAX_ITERATIONS \<Longrightarrow> loopIteration env cx s = Continue s' \<Longrightarrow>
   agentLoop env cx s = agentLoop env cx s'"
  by (simp add: agentLoop.simps)

lemma loopIteration_iterations:
  "iterations (stateOf (loopIteration env cx s)) = Suc (iterations s)"
  by (auto simp: loopIteration_def Let_def split: sum.splits prod.splits)

lemma loopIteration_error:
  assumes "callModel env (Suc (iterations s)) (requestOf env cx s) = Inl errMsg"
  shows "loopIteration env cx s
         = Break (s\<lparr>iterations := Suc (iterations s),
                    finalText := (if str_includes errMsg ''prompt is too long''
                                     \<or> str_includes errMsg ''max_tokens''
                                  then promptTooLongText else genericErrorText)\<rparr>)"
  using assms by (simp add: loopIteration_def Let_def)

lemma loopIteration_text:
  assumes "callModel env (Suc (iterations s)) (requestOf env cx s) = Inr response"
    and "toolUseBlocksOf (response_content response) = []"
  shows "loopIteration env cx s
         = Break (s\<lparr>iterations := Suc (iterations s),
                    finalText := join newline (textBlocksOf (response_content response))\<rparr>)"
  using assms by (simp add: loopIteration_def Let_def)

lemma loopIteration_tools:
  assumes "callModel env (Suc (iterations s)) (requestOf env cx s) = Inr response"
    and "toolUseBlocksOf (response_content response) \<noteq> []"
    and "executeToolCalls env (toolContext cx) (toolUseBlocksOf (response_content response)) []
           (world s) = (toolResults, w')"
  shows "loopIteration env cx s
         = (let s' = s\<lparr>currentMessages := currentMessages s @
                          [\<lparr>role = Assistant, content = Blocks (response_content response)\<rparr>,
                           \<lparr>role = User, content = Blocks toolResults\<rparr>],
                        iterations := Suc (iterations s), world := w'\<rparr>
            in if stop_reason response = Some ''end_turn''
                  \<and> textBlocksOf (response_content response) \<noteq> []
               then Break (s'\<lparr>finalText := join newline (textBlocksOf (response_content response))\<rparr>)
               else Continue s')"
  using assms by (simp add: loopIteration_def Let_def)

lemma agentLoop_iterations_le:
  "iterations s \<le> MAX_ITERATIONS \<Longrightarrow> iterations (agentLoop env cx s) \<le> MAX_ITERATIONS"
proof (induction env cx s rule: agentLoop.induct)
  case (1 env cx s)
  show ?case
  proof (cases "iterations s < MAX_ITERATIONS")
    case False
    then show ?thesis using "1.prems" by (simp add: agentLoop_stop)
  next
    case True
    have it: "iterations (stateOf (loopIteration env cx s)) = Suc (iterations s)"
      by (rule loopIteration_iterations)
    show ?thesis
    proof (cases "loopIteration env cx s")
      case (Break s')
      then show ?thesis using True it by (simp add: agentLoop_break)
    next
      case (Continue s')
      then have "iterations s' \<le> MAX_ITERATIONS" using True it by simp
      then have "iterations (agentLoop env cx s') \<le> MAX_ITERATIONS"
        using "1.IH" [OF True Continue] by simp
      then show ?thesis using True Continue by (simp add: agentLoop_continue)
    qed
  qed
qed

lemma loopIteration_keeps:
  assumes "keepsRequestingTools env" and "iterations s < MAX_ITERATIONS"
  shows "\<exists>s'. loopIteration env cx s = Continue s' \<and> finalText s' = finalText s"
proof -
  from assms obtain response where
    r: "callModel env (Suc (iterations s)) (requestOf env cx s) = Inr response"
       "toolUseBlocksOf (response_content response) \<noteq> []"
       "\<not> (stop_reason response = Some ''end_turn''
            \<and> textBlocksOf (response_content response) \<noteq> [])"
    unfolding keepsRequestingTools_def
    by (metis Suc_leI le_add1 plus_1_eq_Suc)
  obtain toolResults w' where
    e: "executeToolCalls env (toolContext cx) (toolUseBlocksOf (response_content response)) []
          (world s) = (toolResults, w')"
    by (cases "executeToolCalls env (toolContext cx)
                 (toolUseBlocksOf (response_content response)) [] (world s)")
  show ?thesis
    using loopIteration_tools [OF r(1,2) e] r(3) by (auto simp: Let_def)
qed

lemma agentLoop_keeps:
  "keepsRequestingTools env \<Longrightarrow> iterations s \<le> MAX_ITERATIONS \<Longrightarrow>
   iterations (agentLoop env cx s) = MAX_ITERATIONS
   \<and> finalText (agentLoop env cx s) = finalText s"
proof (induction env cx s rule: agentLoop.induct)
  case (1 env cx s)
  show ?case
  proof (cases "iterations s < MAX_ITERATIONS")
    case False
    then show ?thesis using "1.prems"(2) by (simp add: agentLoop_stop)
  next
    case True
    from loopIteration_keeps [OF "1.prems"(1) True] obtain s' where
      s': "loopIteration env cx s = Continue s'" "finalText s' = finalText s"
      by blast
    have "iterations s' = Suc (iterations s)"
      using loopIteration_iterations [of env cx s] s'(1) by simp
    then have le: "iterations s' \<le> MAX_ITERATIONS" using True by simp
    have "iterations (agentLoop env cx s') = MAX_ITERATIONS
          \<and> finalText (agentLoop env cx s') = finalText s'"
      by (rule "1.IH" [OF True s'(1) "1.prems"(1) le])
    then show ?thesis using True s' by (simp add: agentLoop_continue)
  qed
qed

lemma agentLoop_tenth_text:
  "(\<forall>req. \<exists>response. callModel env 10 req = Inr response
        \<and> toolUseBlocksOf (response_content response) = []) \<Longrightarrow>
   iterations s < MAX_ITERATIONS \<Longrightarrow>
   iterations (agentLoop env cx s) = MAX_ITERATIONS \<Longrightarrow>
   \<exists>req response. callModel env 10 req = Inr response
      \<and> finalText (agentLoop env cx s) = join newline (textBlocksOf (response_content response))"
proof (induction env cx s rule: agentLoop.induct)
  case (1 env cx s)
  note tenth = "1.prems"(1) and lt = "1.prems"(2) and reach = "1.prems"(3)
  have it: "iterations (stateOf (loopIteration env cx s)) = Suc (iterations s)"
    by (rule loopIteration_iterations)
  show ?case
  proof (cases "iterations s = 9")
    case True
    from tenth obtain response where
      r: "callModel env 10 (requestOf env cx s) = Inr response"
         "toolUseBlocksOf (response_content response) = []"
      by blast
    have "loopIteration env cx s
          = Break (s\<lparr>iterations := Suc (iterations s),
                     finalText := join newline (textBlocksOf (response_content response))\<rparr>)"
      using r True by (intro loopIteration_text) simp_all
    then have "finalText (agentLoop env cx s)
               = join newline (textBlocksOf (response_content response))"
      using lt by (simp add: agentLoop_break)
    with r(1) show ?thesis by blast
  next
    case False
    then have small: "Suc (iterations s) < MAX_ITERATIONS"
      using lt by (simp add: MAX_ITERATIONS_def)
    show ?thesis
    proof (cases "loopIteration env cx s")
      case (Break s')
      then have "iterations (agentLoop env cx s) = Suc (iterations s)"
        using lt it by (simp add: agentLoop_break)
      then show ?thesis using reach small by simp
    next
      case (Continue s')
      then have its: "iterations s' < MAX_ITERATIONS" using it small by simp
      have eq: "agentLoop env cx s = agentLoop env cx s'"
        using lt Continue by (rule agentLoop_continue)
      have "\<exists>req response. callModel env 10 req = Inr response
              \<and> finalText (agentLoop env cx s')
                  = join newline (textBlocksOf (response_content response))"
        using reach eq by (intro "1.IH" [OF lt Continue tenth its]) simp
      then show ?thesis using eq by simp
    qed
  qed
qed

lemma agentLoop_reaches_tenth:
  "(\<forall>n req. 1 \<le> n \<and> n < MAX_ITERATIONS \<longrightarrow>
      (\<exists>response. callModel env n req = Inr response
         \<and> toolUseBlocksOf (response_content response) \<noteq> []
         \<and> \<not> (stop_reason response = Some ''end_turn''
                \<and> textBlocksOf (response_content response) \<noteq> []))) \<Longrightarrow>
   iterations s < MAX_ITERATIONS \<Longrightarrow>
   iterations (agentLoop env cx s) = MAX_ITERATIONS"
proof (induction env cx s rule: agentLoop.induct)
  case (1 env cx s)
  note keep = "1.prems"(1) and lt = "1.prems"(2)
  have it: "iterations (stateOf (loopIteration env cx s)) = Suc (iterations s)"
    by (rule loopIteration_iterations)
  show ?case
  proof (cases "Suc (iterations s) = MAX_ITERATIONS")
    case True
    show ?thesis
    proof (cases "loopIteration env cx s")
      case (Break s')
      then show ?thesis using lt it True by (simp add: agentLoop_break)
    next
      case (Continue s')
      then have "iterations s' = MAX_ITERATIONS" using it True by simp
      then have "agentLoop env cx s' = s'" by (simp add: agentLoop_stop)
      then show ?thesis
        using lt Continue \<open>iterations s' = MAX_ITERATIONS\<close> by (simp add: agentLoop_continue)
    qed
  next
    case False
    then have small: "Suc (iterations s) < MAX_ITERATIONS" using lt by simp
    from keep small obtain response where
      r: "callModel env (Suc (iterations s)) (requestOf env cx s) = Inr response"
         "toolUseBlocksOf (response_content response) \<noteq> []"
         "\<not> (stop_reason response = Some ''end_turn''
              \<and> textBlocksOf (response_content response) \<noteq> [])"
      by (metis Suc_leI le_add1 plus_1_eq_Suc)
    obtain toolResults w' where
      e: "executeToolCalls env (toolContext cx) (toolUseBlocksOf (response_content response)) []
            (world s) = (toolResults, w')"
      by (cases "executeToolCalls env (toolContext cx)
                   (toolUseBlocksOf (response_content response)) [] (world s)")
    from loopIteration_tools [OF r(1,2) e] r(3) obtain s' where
      s': "loopIteration env cx s = Continue s'"
      by (auto simp: Let_def)
    then have its: "iterations s' < MAX_ITERATIONS" using it small by simp
    have "iterations (agentLoop env cx s') = MAX_ITERATIONS"
      by (rule "1.IH" [OF lt s' keep its])
    then show ?thesis using lt s' by (simp add: agentLoop_continue)
  qed
qed

lemma executeToolCalls_ids:
  "map tool_use_id (fst (executeToolCalls env context calls acc w))
     = map tool_use_id acc @ map (Some \<circ> toolCallId) calls"
proof (induction calls arbitrary: acc w)
  case Nil
  then show ?case by simp
next
  case (Cons c calls)
  obtain block w' where b: "toolResultFor env context c w = (block, w')"
    by (cases "toolResultFor env context c w")
  then have "tool_use_id block = Some (toolCallId c)"
    by (auto simp: toolResultFor_def split: prod.splits)
  then show ?case using b Cons.IH [of "acc @ [block]" w'] by simp
qed

lemma filter_length_map_eq:
  assumes "map f xs = map g ys"
  shows "length (filter (\<lambda>x. f x = a) xs) = length (filter (\<lambda>y. g y = a) ys)"
proof -
  have "length (filter (\<lambda>x. f x = a) xs) = length (filter (\<lambda>v. v = a) (map f xs))"
    by (simp add: filter_map comp_def)
  also have "\<dots> = length (filter (\<lambda>v. v = a) (map g ys))" using assms by simp
  also have "\<dots> = length (filter (\<lambda>y. g y = a) ys)" by (simp add: filter_map comp_def)
  finally show ?thesis .
qed

text \<open>
  C3. In every loop iteration whose model response contains tool invocations, the turns
  appended to the transcript are the assistant's response as received and one user turn of
  tool results; the \<^verbatim>\<open>tool_use_id\<close>s of the results are the ids of the invocations, position
  by position, so every id occurs among the results exactly as often as among the
  invocations (once, when the invocation ids are distinct).
\<close>

theorem loopIteration_tool_results:
  assumes "callModel env (Suc (iterations s)) (requestOf env cx s) = Inr response"
    and "toolUseBlocksOf (response_content response) \<noteq> []"
  shows "\<exists>toolResults.
           currentMessages (stateOf (loopIteration env cx s))
             = currentMessages s @
                 [\<lparr>role = Assistant, content = Blocks (response_content response)\<rparr>,
                  \<lparr>role = User, content = Blocks toolResults\<rparr>]
           \<and> map tool_use_id toolResults
               = map (Some \<circ> toolCallId) (toolUseBlocksOf (response_content response))
           \<and> (\<forall>X. length (filter (\<lambda>b. tool_use_id b = Some X) toolResults)
                    = length (filter (\<lambda>c. toolCallId c = X)
                                (toolUseBlocksOf (response_content response))))"
proof -
  let ?calls = "toolUseBlocksOf (response_content response)"
  obtain toolResults w' where
    e: "executeToolCalls env (toolContext cx) ?calls [] (world s) = (toolResults, w')"
    by (cases "executeToolCalls env (toolContext cx) ?calls [] (world s)")
  have ids: "map tool_use_id toolResults = map (Some \<circ> toolCallId) ?calls"
    using executeToolCalls_ids [of env "toolContext cx" ?calls "[]" "world s"] e by simp
  have cnt: "length (filter (\<lambda>b. tool_use_id b = Some X) toolResults)
               = length (filter (\<lambda>c. toolCallId c = X) ?calls)" for X
    using filter_length_map_eq [OF ids, of "Some X"] by simp
  have msgs: "currentMessages (stateOf (loopIteration env cx s))
             = currentMessages s @
                 [\<lparr>role = Assistant, content = Blocks (response_content response)\<rparr>,
                  \<lparr>role = User, content = Blocks toolResults\<rparr>]"
    using loopIteration_tools [OF assms e] by (simp add: Let_def)
  from msgs ids cnt show ?thesis by blast
qed


lemma endTurn_iteration:
  "loopIteration endTurnEnv sampleLoopContext (initialState sampleTurns emptyWorld)
   = Break \<lparr>currentMessages = sampleTurns @
              [\<lparr>role = Assistant, content = Blocks (response_content endTurnResponse)\<rparr>,
               \<lparr>role = User, content = Blocks [ToolResultBlock ''toolu_1'' ''{}'']\<rparr>],
            iterations = 1, finalText = ''Let me look that up.'', world = emptyWorld\<rparr>"
  by (simp add: loopIteration_def Let_def endTurnEnv_def baseEnv_def requestOf_def
        initialState_def endTurnResponse_def toolUseResponse_def toolResultFor_def callTool_def
        executeTool_def otherToolNames_def sampleLoopContext_def)

text \<open>
  C1 (as stated, refuted). Every response of this model requests a tool, with a text block
  and the stop reason \<^verbatim>\<open>end_turn\<close>: the loop runs the tool, breaks in its first iteration
  and the final text carries no notice.
\<close>

theorem agentLoop_end_turn_counterexample:
  "callModel endTurnEnv 1 (requestOf endTurnEnv sampleLoopContext
                             (initialState sampleTurns emptyWorld)) = Inr endTurnResponse
   \<and> toolUseBlocksOf (response_content endTurnResponse) \<noteq> []
   \<and> iterations (agentLoop endTurnEnv sampleLoopContext (initialState sampleTurns emptyWorld)) = 1
   \<and> finishText (agentLoop endTurnEnv sampleLoopContext (initialState sampleTurns emptyWorld))
       = ''Let me look that up.''"
proof -
  have lt: "iterations (initialState sampleTurns emptyWorld) < MAX_ITERATIONS"
    by (simp add: initialState_def MAX_ITERATIONS_def)
  note run = agentLoop_break [OF lt endTurn_iteration]
  show ?thesis
    by (simp add: run finishText_def MAX_ITERATIONS_def)
       (simp add: endTurnEnv_def baseEnv_def endTurnResponse_def toolUseResponse_def)
qed

text \<open>
  C1 (amended). For every sequence of model outcomes the loop performs at most 10
  iterations (model calls). When every response carries at least one tool-use block and none
  combines the stop reason \<^verbatim>\<open>end_turn\<close> with a text block, the loop stops after exactly 10
  iterations and the final text is the maximum-iterations notice.
\<close>

theorem agentLoop_bounded:
  "iterations (agentLoop env cx (initialState msgs w)) \<le> 10
   \<and> (keepsRequestingTools env \<longrightarrow>
        iterations (agentLoop env cx (initialState msgs w)) = 10
        \<and> finishText (agentLoop env cx (initialState msgs w)) = maxIterationsNotice)"
proof -
  have start: "iterations (initialState msgs w) \<le> MAX_ITERATIONS"
    by (simp add: initialState_def)
  have le: "iterations (agentLoop env cx (initialState msgs w)) \<le> 10"
    using agentLoop_iterations_le [OF start, of env cx] by (simp add: MAX_ITERATIONS_def)
  have "iterations (agentLoop env cx (initialState msgs w)) = 10
        \<and> finishText (agentLoop env cx (initialState msgs w)) = maxIterationsNotice"
    if "keepsRequestingTools env"
    using agentLoop_keeps [OF that start, of cx]
    by (simp add: finishText_def MAX_ITERATIONS_def initialState_def)
  with le show ?thesis by blast
qed

lemma toolLoopEnv_keeps: "keepsRequestingTools toolLoopEnv"
  by (simp add: keepsRequestingTools_def toolLoopEnv_def baseEnv_def toolUseResponse_def)

theorem agentLoop_bounded_witness:
  "keepsRequestingTools toolLoopEnv
   \<and> iterations (agentLoop toolLoopEnv sampleLoopContext (initialState sampleTurns emptyWorld)) = 10
   \<and> finishText (agentLoop toolLoopEnv sampleLoopContext (initialState sampleTurns emptyWorld))
       = maxIterationsNotice"
  using agentLoop_bounded [of toolLoopEnv sampleLoopContext sampleTurns emptyWorld]
    toolLoopEnv_keeps
  by blast

lemma agentLoop_fails_at:
  "(\<forall>req. callModel env k req = Inl errMsg) \<Longrightarrow> iterations s < k \<Longrightarrow>
   k \<le> iterations (agentLoop env cx s) \<Longrightarrow>
   iterations (agentLoop env cx s) = k
   \<and> finalText (agentLoop env cx s)
       = (if str_includes errMsg ''prompt is too long'' \<or> str_includes errMsg ''max_tokens''
          then promptTooLongText else genericErrorText)"
proof (induction env cx s rule: agentLoop.induct)
  case (1 env cx s)
  note fails = "1.prems"(1) and lt = "1.prems"(2) and reach = "1.prems"(3)
  have it: "iterations (stateOf (loopIteration env cx s)) = Suc (iterations s)"
    by (rule loopIteration_iterations)
  show ?case
  proof (cases "iterations s < MAX_ITERATIONS")
    case False
    then have "agentLoop env cx s = s" by (rule agentLoop_stop)
    then show ?thesis using lt reach by simp
  next
    case True
    show ?thesis
    proof (cases "Suc (iterations s) = k")
      case here: True
      have "callModel env (Suc (iterations s)) (requestOf env cx s) = Inl errMsg"
        using fails here by simp
      from agentLoop_break [OF True loopIteration_error [OF this]] here
      show ?thesis by simp
    next
      case False
      then have small: "Suc (iterations s) < k" using lt by simp
      show ?thesis
      proof (cases "loopIteration env cx s")
        case (Break s')
        then have "iterations (agentLoop env cx s) = Suc (iterations s)"
          using True it by (simp add: agentLoop_break)
        then show ?thesis using reach small by simp
      next
        case (Continue s')
        then have its: "iterations s' < k" using it small by simp
        have eq: "agentLoop env cx s = agentLoop env cx s'"
          using True Continue by (rule agentLoop_continue)
        have "iterations (agentLoop env cx s') = k
              \<and> finalText (agentLoop env cx s')
                  = (if str_includes errMsg ''prompt is too long''
                        \<or> str_includes errMsg ''max_tokens''
                     then promptTooLongText else genericErrorText)"
          using reach eq by (intro "1.IH" [OF True Continue fails its]) simp
        then show ?thesis using eq by simp
      qed
    qed
  qed
qed

lemma agentLoop_iterations_grow:
  "iterations s < MAX_ITERATIONS \<Longrightarrow> Suc (iterations s) \<le> iterations (agentLoop env cx s)"
proof (induction env cx s rule: agentLoop.induct)
  case (1 env cx s)
  have it: "iterations (stateOf (loopIteration env cx s)) = Suc (iterations s)"
    by (rule loopIteration_iterations)
  show ?case
  proof (cases "loopIteration env cx s")
    case (Break s')
    then show ?thesis using "1.prems" it by (simp add: agentLoop_break)
  next
    case (Continue s')
    have eq: "agentLoop env cx s = agentLoop env cx s'"
      using "1.prems" Continue by (rule agentLoop_continue)
    show ?thesis
    proof (cases "iterations s' < MAX_ITERATIONS")
      case True
      from "1.IH" [OF "1.prems" Continue True] show ?thesis
        using eq it Continue by simp
    next
      case False
      then have "agentLoop env cx s' = s'" by (rule agentLoop_stop)
      then show ?thesis using eq it Continue by simp
    qed
  qed
qed

lemma handleMessage_sends:
  assumes "trim env (messageText message) \<noteq> []"
    and "finishText (runLoop env reg session (trim env (messageText message))
                       (addToHistory env session User (trim env (messageText message)) w)) \<noteq> []"
  shows "fst (handleMessage env reg message session w)
         = sendMessage env
             (OutgoingMessage (chatPlatform message) (chatId message)
                (finishText (runLoop env reg session (trim env (messageText message))
                   (addToHistory env session User (trim env (messageText message)) w)))
                (messageId message))"
  using assms by (simp add: handleMessage_def Let_def)

lemma runLoop_fails_at:
  assumes "1 \<le> k"
    and "k \<le> iterations (runLoop env reg session txt w1)"
    and "\<forall>req. callModel env k req = Inl errMsg"
  shows "iterations (runLoop env reg session txt w1) = k
         \<and> finishText (runLoop env reg session txt w1)
             = (if str_includes errMsg ''prompt is too long'' \<or> str_includes errMsg ''max_tokens''
                then promptTooLongText else genericErrorText)
               @ (if k = 10 then newline @ newline @ ''(Reached maximum tool call iterations.)''
                  else [])"
proof -
  obtain cx ms where run: "runLoop env reg session txt w1 = agentLoop env cx (initialState ms w1)"
    by (simp add: runLoop_def Let_def)
  have lt: "iterations (initialState ms w1) < k"
    using assms(1) by (simp add: initialState_def)
  have reach: "k \<le> iterations (agentLoop env cx (initialState ms w1))"
    using assms(2) run by simp
  note r = agentLoop_fails_at [OF assms(3) lt reach]
  have le: "iterations (agentLoop env cx (initialState ms w1)) \<le> MAX_ITERATIONS"
    by (rule agentLoop_iterations_le) (simp add: initialState_def)
  show ?thesis
    using r le by (auto simp: run finishText_def MAX_ITERATIONS_def maxIterationsNotice_def)
qed

lemma promptTooLongText_nonempty: "promptTooLongText \<noteq> []"
  by (simp add: promptTooLongText_def)

lemma genericErrorText_nonempty: "genericErrorText \<noteq> []"
  by (simp add: genericErrorText_def)

text \<open>
  C7 (amended). If the \<open>k\<close>-th model call of a run of \<open>handleMessage\<close> throws, the run makes
  exactly \<open>k\<close> model calls (no retry), and the text handed to \<open>sendMessage\<close> is the tailored
  message when the error message contains "prompt is too long" or "max_tokens", the generic
  try-again message otherwise; when the failing call is the tenth, the statement after the
  loop appends two newlines and "(Reached maximum tool call iterations.)" to it.
\<close>

theorem handleMessage_model_error:
  assumes "trim env (messageText message) \<noteq> []"
    and "1 \<le> k"
    and "k \<le> iterations (runLoop env reg session (trim env (messageText message))
                           (addToHistory env session User (trim env (messageText message)) w))"
    and "\<forall>req. callModel env k req = Inl errMsg"
  shows "iterations (runLoop env reg session (trim env (messageText message))
                       (addToHistory env session User (trim env (messageText message)) w)) = k
         \<and> fst (handleMessage env reg message session w)
             = sendMessage env
                 (OutgoingMessage (chatPlatform message) (chatId message)
                    ((if str_includes errMsg ''prompt is too long''
                         \<or> str_includes errMsg ''max_tokens''
                      then promptTooLongText else genericErrorText)
                     @ (if k = 10
                        then newline @ newline @ ''(Reached maximum tool call iterations.)''
                        else []))
                    (messageId message))"
proof -
  note r = runLoop_fails_at [OF assms(2,3,4)]
  have ne: "finishText (runLoop env reg session (trim env (messageText message))
                       (addToHistory env session User (trim env (messageText message)) w)) \<noteq> []"
    using r promptTooLongText_nonempty genericErrorText_nonempty by (simp split: if_splits)
  show ?thesis
    using handleMessage_sends [OF assms(1) ne] r by simp
qed

lemma baseEnv_first_call:
  "1 \<le> iterations (runLoop baseEnv sampleRegistry sampleSession
                 (trim baseEnv (messageText sampleMessage))
                 (addToHistory baseEnv sampleSession User
                    (trim baseEnv (messageText sampleMessage)) emptyWorld))"
  unfolding runLoop_def Let_def
  using agentLoop_iterations_grow
  by (metis One_nat_def MAX_ITERATIONS_def initialState_def LoopState.select_convs(2)
        zero_less_numeral)

lemma tenthFailEnv_reaches:
  "iterations (runLoop tenthFailEnv sampleRegistry sampleSession
                 (trim tenthFailEnv (messageText sampleMessage))
                 (addToHistory tenthFailEnv sampleSession User
                    (trim tenthFailEnv (messageText sampleMessage)) emptyWorld)) = 10"
proof -
  have keep: "\<forall>n req. 1 \<le> n \<and> n < MAX_ITERATIONS \<longrightarrow>
      (\<exists>response. callModel tenthFailEnv n req = Inr response
         \<and> toolUseBlocksOf (response_content response) \<noteq> []
         \<and> \<not> (stop_reason response = Some ''end_turn''
                \<and> textBlocksOf (response_content response) \<noteq> []))"
    by (simp add: tenthFailEnv_def baseEnv_def toolUseResponse_def MAX_ITERATIONS_def)
  show ?thesis
    unfolding runLoop_def Let_def
    using agentLoop_reaches_tenth [OF keep]
    by (simp add: initialState_def MAX_ITERATIONS_def)
qed

text \<open>
  C7 (as stated, refuted). When the tenth model call fails with a prompt-too-long error, the
  text sent is the tailored message followed by the maximum-iterations notice, not the
  tailored message. And an error message that contains "too long" but neither of the two
  phrases the code looks for gets the generic message.
\<close>

theorem handleMessage_model_error_counterexample:
  "fst (handleMessage tenthFailEnv sampleRegistry sampleMessage sampleSession emptyWorld)
     = Some (promptTooLongText @ newline @ newline @ ''(Reached maximum tool call iterations.)'')
   \<and> str_includes ''input is too long for the requested model'' ''too long''
   \<and> fst (handleMessage inputTooLongEnv sampleRegistry sampleMessage sampleSession emptyWorld)
       = Some genericErrorText"
proof -
  have nb: "trim tenthFailEnv (messageText sampleMessage) \<noteq> []"
    by (simp add: tenthFailEnv_def baseEnv_def sampleMessage_def)
  have f: "\<forall>req. callModel tenthFailEnv 10 req
             = Inl ''prompt is too long: 212000 tokens > 200000 maximum''"
    by (simp add: tenthFailEnv_def baseEnv_def)
  have ten: "(10::nat) \<le> iterations (runLoop tenthFailEnv sampleRegistry sampleSession
                 (trim tenthFailEnv (messageText sampleMessage))
                 (addToHistory tenthFailEnv sampleSession User
                    (trim tenthFailEnv (messageText sampleMessage)) emptyWorld))"
    using tenthFailEnv_reaches by simp
  have one10: "(1::nat) \<le> 10" by simp
  note r = runLoop_fails_at [OF one10 ten f]
  have fin: "finishText (runLoop tenthFailEnv sampleRegistry sampleSession
                 (trim tenthFailEnv (messageText sampleMessage))
                 (addToHistory tenthFailEnv sampleSession User
                    (trim tenthFailEnv (messageText sampleMessage)) emptyWorld))
             = promptTooLongText @ newline @ newline @ ''(Reached maximum tool call iterations.)''"
    using r by simp
  have ne: "finishText (runLoop tenthFailEnv sampleRegistry sampleSession
                 (trim tenthFailEnv (messageText sampleMessage))
                 (addToHistory tenthFailEnv sampleSession User
                    (trim tenthFailEnv (messageText sampleMessage)) emptyWorld)) \<noteq> []"
    using fin promptTooLongText_nonempty by simp
  have a: "fst (handleMessage tenthFailEnv sampleRegistry sampleMessage sampleSession emptyWorld)
     = Some (promptTooLongText @ newline @ newline @ ''(Reached maximum tool call iterations.)'')"
    using handleMessage_sends [OF nb ne] fin by (simp add: tenthFailEnv_def baseEnv_def)
  have nb2: "trim inputTooLongEnv (messageText sampleMessage) \<noteq> []"
    by (simp add: inputTooLongEnv_def baseEnv_def sampleMessage_def)
  have f2: "\<forall>req. callModel inputTooLongEnv 1 req
             = Inl ''input is too long for the requested model''"
    by (simp add: inputTooLongEnv_def baseEnv_def)
  have one: "1 \<le> iterations (runLoop inputTooLongEnv sampleRegistry sampleSession
                 (trim inputTooLongEnv (messageText sampleMessage))
                 (addToHistory inputTooLongEnv sampleSession User
                    (trim inputTooLongEnv (messageText sampleMessage)) emptyWorld))"
    unfolding runLoop_def Let_def
    using agentLoop_iterations_grow [of "initialState ms w" for ms w]
    by (simp add: initialState_def MAX_ITERATIONS_def)
  have oo: "(1::nat) \<le> 1" by simp
  note r2 = runLoop_fails_at [OF oo one f2]
  have fin2: "finishText (runLoop inputTooLongEnv sampleRegistry sampleSession
                 (trim inputTooLongEnv (messageText sampleMessage))
                 (addToHistory inputTooLongEnv sampleSession User
                    (trim inputTooLongEnv (messageText sampleMessage)) emptyWorld))
             = genericErrorText"
    using r2 by simp
  have b: "fst (handleMessage inputTooLongEnv sampleRegistry sampleMessage sampleSession emptyWorld)
       = Some genericErrorText"
    using handleMessage_sends [OF nb2] fin2 genericErrorText_nonempty
    by (simp add: inputTooLongEnv_def baseEnv_def)
  have c: "str_includes ''input is too long for the requested model'' ''too long''"
    by simp
  from a b c show ?thesis by blast
qed

theorem handleMessage_model_error_witness:
  "trim baseEnv (messageText sampleMessage) \<noteq> []
   \<and> (\<forall>req. callModel baseEnv 1 req = Inl ''overloaded'')
   \<and> iterations (runLoop baseEnv sampleRegistry sampleSession
                 (trim baseEnv (messageText sampleMessage))
                 (addToHistory baseEnv sampleSession User
                    (trim baseEnv (messageText sampleMessage)) emptyWorld)) = 1
   \<and> fst (handleMessage baseEnv sampleRegistry sampleMessage sampleSession emptyWorld)
       = Some genericErrorText
   \<and> trim tenthFailEnv (messageText sampleMessage) \<noteq> []
   \<and> (\<forall>req. callModel tenthFailEnv 10 req
         = Inl ''prompt is too long: 212000 tokens > 200000 maximum'')
   \<and> fst (handleMessage tenthFailEnv sampleRegistry sampleMessage sampleSession emptyWorld)
       = Some (promptTooLongText @ newline @ newline @ ''(Reached maximum tool call iterations.)'')"
proof -
  have nb: "trim baseEnv (messageText sampleMessage) \<noteq> []"
    by (simp add: baseEnv_def sampleMessage_def)
  have f: "\<forall>req. callModel baseEnv 1 req = Inl ''overloaded''"
    by (simp add: baseEnv_def)
  have oo: "(1::nat) \<le> 1" by simp
  note a = handleMessage_model_error [OF nb oo baseEnv_first_call f]
  have a1: "iterations (runLoop baseEnv sampleRegistry sampleSession
                 (trim baseEnv (messageText sampleMessage))
                 (addToHistory baseEnv sampleSession User
                    (trim baseEnv (messageText sampleMessage)) emptyWorld)) = 1"
    using a by simp
  have a2: "fst (handleMessage baseEnv sampleRegistry sampleMessage sampleSession emptyWorld)
       = Some genericErrorText"
    using a by (simp add: baseEnv_def)
  have nb10: "trim tenthFailEnv (messageText sampleMessage) \<noteq> []"
    by (simp add: tenthFailEnv_def baseEnv_def sampleMessage_def)
  have f10: "\<forall>req. callModel tenthFailEnv 10 req
             = Inl ''prompt is too long: 212000 tokens > 200000 maximum''"
    by (simp add: tenthFailEnv_def baseEnv_def)
  have ten: "(10::nat) \<le> iterations (runLoop tenthFailEnv sampleRegistry sampleSession
                 (trim tenthFailEnv (messageText sampleMessage))
                 (addToHistory tenthFailEnv sampleSession User
                    (trim tenthFailEnv (messageText sampleMessage)) emptyWorld))"
    using tenthFailEnv_reaches by simp
  have one10: "(1::nat) \<le> 10" by simp
  note b = handleMessage_model_error [OF nb10 one10 ten f10]
  have b2: "fst (handleMessage tenthFailEnv sampleRegistry sampleMessage sampleSession emptyWorld)
       = Some (promptTooLongText @ newline @ newline @ ''(Reached maximum tool call iterations.)'')"
    using b by (simp add: tenthFailEnv_def baseEnv_def)
  from nb f a1 a2 nb10 f10 b2 show ?thesis by blast
qed

theorem loopIteration_tool_results_witness:
  "callModel toolLoopEnv (Suc (iterations (initialState sampleTurns emptyWorld)))
     (requestOf toolLoopEnv sampleLoopContext (initialState sampleTurns emptyWorld))
     = Inr toolUseResponse
   \<and> toolUseBlocksOf (response_content toolUseResponse) \<noteq> []
   \<and> (\<exists>toolResults.
         currentMessages (stateOf (loopIteration toolLoopEnv sampleLoopContext
                                     (initialState sampleTurns emptyWorld)))
           = currentMessages (initialState sampleTurns emptyWorld) @
               [\<lparr>role = Assistant, content = Blocks (response_content toolUseResponse)\<rparr>,
                \<lparr>role = User, content = Blocks toolResults\<rparr>]
         \<and> map tool_use_id toolResults = [Some ''toolu_1''])"
proof -
  have m: "callModel toolLoopEnv (Suc (iterations (initialState sampleTurns emptyWorld)))
     (requestOf toolLoopEnv sampleLoopContext (initialState sampleTurns emptyWorld))
     = Inr toolUseResponse"
    by (simp add: toolLoopEnv_def baseEnv_def)
  have t: "toolUseBlocksOf (response_content toolUseResponse) \<noteq> []"
    by (simp add: toolUseResponse_def)
  have ids: "map (Some \<circ> toolCallId) (toolUseBlocksOf (response_content toolUseResponse))
             = [Some ''toolu_1'']"
    by (simp add: toolUseResponse_def)
  from loopIteration_tool_results [OF m t] obtain toolResults where
    "currentMessages (stateOf (loopIteration toolLoopEnv sampleLoopContext
                                     (initialState sampleTurns emptyWorld)))
           = currentMessages (initialState sampleTurns emptyWorld) @
               [\<lparr>role = Assistant, content = Blocks (response_content toolUseResponse)\<rparr>,
                \<lparr>role = User, content = Blocks toolResults\<rparr>]"
    "map tool_use_id toolResults
       = map (Some \<circ> toolCallId) (toolUseBlocksOf (response_content toolUseResponse))"
    by blast
  with m t ids show ?thesis by auto
qed

text \<open>
  C10. For every run of \<open>handleMessage\<close> that reaches a tenth iteration in which the model's
  response has no tool-use block, the text handed to \<open>sendMessage\<close> is the response's text
  followed by two newlines and "(Reached maximum tool call iterations.)": the check after
  the loop looks at the counter only.
\<close>

theorem handleMessage_tenth_text_notice:
  assumes "trim env (messageText message) \<noteq> []"
    and "iterations (runLoop env reg session (trim env (messageText message))
                       (addToHistory env session User (trim env (messageText message)) w)) = 10"
    and "\<forall>req. \<exists>response. callModel env 10 req = Inr response
            \<and> toolUseBlocksOf (response_content response) = []"
  shows "\<exists>req response. callModel env 10 req = Inr response
           \<and> fst (handleMessage env reg message session w)
               = sendMessage env
                   (OutgoingMessage (chatPlatform message) (chatId message)
                      (join newline (textBlocksOf (response_content response))
                         @ newline @ newline @ ''(Reached maximum tool call iterations.)'')
                      (messageId message))"
proof -
  let ?txt = "trim env (messageText message)"
  let ?w1 = "addToHistory env session User ?txt w"
  obtain cx ms where run: "runLoop env reg session ?txt ?w1 = agentLoop env cx (initialState ms ?w1)"
    by (simp add: runLoop_def Let_def)
  have lt: "iterations (initialState ms ?w1) < MAX_ITERATIONS"
    by (simp add: initialState_def MAX_ITERATIONS_def)
  have reach: "iterations (agentLoop env cx (initialState ms ?w1)) = MAX_ITERATIONS"
    using assms(2) run by (simp add: MAX_ITERATIONS_def)
  from agentLoop_tenth_text [OF assms(3) lt reach] obtain req response where
    r: "callModel env 10 req = Inr response"
       "finalText (agentLoop env cx (initialState ms ?w1))
          = join newline (textBlocksOf (response_content response))"
    by blast
  have fin: "finishText (runLoop env reg session ?txt ?w1)
             = join newline (textBlocksOf (response_content response)) @ maxIterationsNotice"
    using r(2) reach run by (simp add: finishText_def)
  have ne: "finishText (runLoop env reg session ?txt ?w1) \<noteq> []"
    using fin by (simp add: maxIterationsNotice_def)
  have "fst (handleMessage env reg message session w)
        = sendMessage env
            (OutgoingMessage (chatPlatform message) (chatId message)
               (finishText (runLoop env reg session ?txt ?w1)) (messageId message))"
    using assms(1) ne by (simp add: handleMessage_def Let_def)
  then show ?thesis using r(1) fin by (auto simp: maxIterationsNotice_def)
qed

lemma tenthTextEnv_reaches:
  "iterations (runLoop tenthTextEnv sampleRegistry sampleSession
                 (trim tenthTextEnv (messageText sampleMessage))
                 (addToHistory tenthTextEnv sampleSession User
                    (trim tenthTextEnv (messageText sampleMessage)) emptyWorld)) = 10"
proof -
  have keep: "\<forall>n req. 1 \<le> n \<and> n < MAX_ITERATIONS \<longrightarrow>
      (\<exists>response. callModel tenthTextEnv n req = Inr response
         \<and> toolUseBlocksOf (response_content response) \<noteq> []
         \<and> \<not> (stop_reason response = Some ''end_turn''
                \<and> textBlocksOf (response_content response) \<noteq> []))"
    by (simp add: tenthTextEnv_def baseEnv_def toolUseResponse_def MAX_ITERATIONS_def)
  show ?thesis
    unfolding runLoop_def Let_def
    using agentLoop_reaches_tenth [OF keep]
    by (simp add: initialState_def MAX_ITERATIONS_def)
qed

theorem handleMessage_tenth_text_notice_witness:
  "trim tenthTextEnv (messageText sampleMessage) \<noteq> []
   \<and> (\<forall>req. callModel tenthTextEnv 10 req = Inr textResponse)
   \<and> toolUseBlocksOf (response_content textResponse) = []
   \<and> fst (handleMessage tenthTextEnv sampleRegistry sampleMessage sampleSession emptyWorld)
       = Some (''The eBay fee is $6.63.'' @ newline @ newline
                 @ ''(Reached maximum tool call iterations.)'')"
proof -
  have nb: "trim tenthTextEnv (messageText sampleMessage) \<noteq> []"
    by (simp add: tenthTextEnv_def baseEnv_def sampleMessage_def)
  have tenth: "\<forall>req. callModel tenthTextEnv 10 req = Inr textResponse"
    by (simp add: tenthTextEnv_def baseEnv_def)
  have notools: "toolUseBlocksOf (response_content textResponse) = []"
    by (simp add: textResponse_def)
  have hyp: "\<forall>req. \<exists>response. callModel tenthTextEnv 10 req = Inr response
            \<and> toolUseBlocksOf (response_content response) = []"
    using tenth notools by simp
  from handleMessage_tenth_text_notice [OF nb tenthTextEnv_reaches hyp]
  obtain req response where
    r: "callModel tenthTextEnv 10 req = Inr response"
       "fst (handleMessage tenthTextEnv sampleRegistry sampleMessage sampleSession emptyWorld)
        = sendMessage tenthTextEnv
            (OutgoingMessage (chatPlatform sampleMessage) (chatId sampleMessage)
               (join newline (textBlocksOf (response_content response))
                  @ newline @ newline @ ''(Reached maximum tool call iterations.)'')
               (messageId sampleMessage))"
    by blast
  have "response = textResponse" using r(1) tenth by simp
  then have "fst (handleMessage tenthTextEnv sampleRegistry sampleMessage sampleSession emptyWorld)
       = Some (''The eBay fee is $6.63.'' @ newline @ newline
                 @ ''(Reached maximum tool call iterations.)'')"
    using r(2) by (simp add: tenthTextEnv_def baseEnv_def textResponse_def)
  with nb tenth notools show ?thesis by blast
qed

end
